theory Spec2Isabelle
  imports Complex_Main "HOL-Library.Sublist"
begin

section \<open>Broadcast delivery engine\<close>

text \<open>
  A shallow embedding of the broadcast delivery engine of the backend:
  the error classifier and the delivery loop of
  \<^verbatim>\<open>queue/jobHandlers/audience.handler.ts\<close> (the document that defines
  \<^verbatim>\<open>handleBroadcastJob\<close> for campaigns), the pacing controller of
  \<^verbatim>\<open>services/broadcast/antiSpam.service.ts\<close>, the progress reporter of
  \<^verbatim>\<open>services/broadcast/progress.service.ts\<close> and the campaign store of
  \<^verbatim>\<open>services/broadcast/broadcast.service.ts\<close>.

  JavaScript numbers are modelled by \<open>nat\<close> and \<open>int\<close> where the code only counts.
  Where the code divides and multiplies and then rounds to an integer (the percentages),
  each operation is rounded to a double as IEEE 754 prescribes. The pacing controller
  raises to a power and draws a random number, which the language leaves to the
  implementation; there the numbers are \<open>real\<close>, an idealisation of doubles.
  Thrown values are returned on the left of a sum.
\<close>

subsection \<open>Strings\<close>

text \<open>\<^verbatim>\<open>String.prototype.includes\<close>: the pattern occurs as a contiguous substring.\<close>

fun includes_str :: "string \<Rightarrow> string \<Rightarrow> bool" where
  "includes_str [] p = (p = [])"
| "includes_str (c # cs) p = (prefix p (c # cs) \<or> includes_str cs p)"

text \<open>The character class \<^verbatim>\<open>\d\<close> of a regular expression without the unicode flag.\<close>

definition isDigit :: "char \<Rightarrow> bool" where
  "isDigit c = (c \<in> set ''0123456789'')"

text \<open>
  \<^verbatim>\<open>parseInt(s, 10)\<close> on a non-empty string of decimal digits. The value is exact
  here; the double of the source is exact below \<open>2^53\<close>.
\<close>

definition parseInt :: "string \<Rightarrow> nat" where
  "parseInt ds = foldl (\<lambda>n c. 10 * n + (of_char c - 48)) 0 ds"

text \<open>
  \<^verbatim>\<open>errorMessage.match(/FLOOD_WAIT_(\d+)/)\<close>: the leftmost position where the
  literal is followed by at least one digit; the capture group takes the longest run
  of digits there. \<open>None\<close> is the \<^verbatim>\<open>null\<close> of a failed match.
\<close>

fun matchFloodWait :: "string \<Rightarrow> string option" where
  "matchFloodWait [] = None"
| "matchFloodWait (c # cs) =
     (if prefix ''FLOOD_WAIT_'' (c # cs)
         \<and> takeWhile isDigit (drop (length ''FLOOD_WAIT_'') (c # cs)) \<noteq> []
      then Some (takeWhile isDigit (drop (length ''FLOOD_WAIT_'') (c # cs)))
      else matchFloodWait cs)"

subsection \<open>Numbers\<close>

text \<open>
  The nearest integer, a tie going to the even one: the rounding of the significand of
  a double.
\<close>

definition roundTiesToEven :: "real \<Rightarrow> int" where
  "roundTiesToEven x =
     (let f = \<lfloor>x\<rfloor>; d = x - of_int f in
      if d < 1 / 2 then f
      else if d > 1 / 2 then f + 1
      else if even f then f else f + 1)"

text \<open>
  The double nearest to a real number (IEEE 754 binary64, round to nearest, ties to
  even): with \<open>2^e \<le> |x| < 2^(e+1)\<close> the doubles around \<open>x\<close> are the multiples of
  \<open>2^(e-52)\<close>. Every arithmetic operation of the language on numbers returns the
  exact result rounded this way. The exponent range is not modelled: the values here
  are quotients and products of counts, far from overflow and from the subnormals.
\<close>

definition binary64 :: "real \<Rightarrow> real" where
  "binary64 x =
     (if x = 0 then 0
      else (let e = \<lfloor>log 2 \<bar>x\<bar>\<rfloor>;
                ulp = 2 powr of_int (e - 52)
            in of_int (roundTiesToEven (x / ulp)) * ulp))"

subsection \<open>Error classifier\<close>

datatype TelegramErrorType =
  PEER_ID_INVALID | USER_RESTRICTED | USER_IS_BOT | FLOOD_WAIT
  | SESSION_EXPIRED | CHAT_WRITE_FORBIDDEN | UNKNOWN

text \<open>
  A thrown \<^verbatim>\<open>Error\<close> object, read through the interface \<^verbatim>\<open>TelegramError\<close>:
  the optional field \<^verbatim>\<open>errorMessage\<close> and the message.
\<close>

record TelegramError =
  errorMessage :: "string option"
  message :: string

text \<open>\<^verbatim>\<open>new Error(msg)\<close>; the subclass \<^verbatim>\<open>NotFoundError\<close> is built the same way.\<close>

definition newError :: "string \<Rightarrow> TelegramError" where
  "newError msg = \<lparr>errorMessage = None, message = msg\<rparr>"

record ErrorClassification =
  type :: TelegramErrorType
  isPermanent :: bool
  isFloodWait :: bool
  floodWaitSeconds :: "nat option"

text \<open>
  \<^verbatim>\<open>err.errorMessage || err.message || ""\<close>: an absent or empty
  \<^verbatim>\<open>errorMessage\<close> falls through to the message.
\<close>

definition errorText :: "TelegramError \<Rightarrow> string" where
  "errorText err =
     (case errorMessage err of
        Some m \<Rightarrow> if m \<noteq> [] then m else message err
      | None \<Rightarrow> message err)"

definition classifyTelegramError :: "TelegramError \<Rightarrow> ErrorClassification" where
  "classifyTelegramError err =
     (let errorMessage = errorText err in
      if includes_str errorMessage ''FLOOD_WAIT'' then
        \<lparr>type = FLOOD_WAIT, isPermanent = False, isFloodWait = True,
         floodWaitSeconds =
           Some (case matchFloodWait errorMessage of
                   Some digits \<Rightarrow> parseInt digits
                 | None \<Rightarrow> 30)\<rparr>
      else if includes_str errorMessage ''PEER_ID_INVALID'' then
        \<lparr>type = PEER_ID_INVALID, isPermanent = True, isFloodWait = False,
         floodWaitSeconds = None\<rparr>
      else if includes_str errorMessage ''USER_RESTRICTED'' then
        \<lparr>type = USER_RESTRICTED, isPermanent = True, isFloodWait = False,
         floodWaitSeconds = None\<rparr>
      else if includes_str errorMessage ''USER_IS_BOT'' then
        \<lparr>type = USER_IS_BOT, isPermanent = True, isFloodWait = False,
         floodWaitSeconds = None\<rparr>
      else if includes_str errorMessage ''SESSION_EXPIRED''
              \<or> includes_str errorMessage ''AUTH_KEY_UNREGISTERED'' then
        \<lparr>type = SESSION_EXPIRED, isPermanent = False, isFloodWait = False,
         floodWaitSeconds = None\<rparr>
      else if includes_str errorMessage ''CHAT_WRITE_FORBIDDEN'' then
        \<lparr>type = CHAT_WRITE_FORBIDDEN, isPermanent = True, isFloodWait = False,
         floodWaitSeconds = None\<rparr>
      else
        \<lparr>type = UNKNOWN, isPermanent = False, isFloodWait = False,
         floodWaitSeconds = None\<rparr>)"

subsection \<open>Pacing controller\<close>

definition BASE_DELAY_MS :: real where "BASE_DELAY_MS = 500"
definition MAX_DELAY_MS :: int where "MAX_DELAY_MS = 5000"
definition JITTER_PERCENT :: real where "JITTER_PERCENT = 0.2"
definition BACKOFF_MULTIPLIER :: real where "BACKOFF_MULTIPLIER = 1.5"

text \<open>
  Of \<^verbatim>\<open>AntiSpamConfig\<close> the class reads the account age only; \<open>None\<close> is an
  absent field.
\<close>

record AntiSpamConfig =
  accountAge :: "real option"

record AntiSpamService =
  config :: AntiSpamConfig
  failureCount :: nat
  successCount :: nat

definition newAntiSpamService :: "AntiSpamConfig \<Rightarrow> AntiSpamService" where
  "newAntiSpamService cfg = \<lparr>config = cfg, failureCount = 0, successCount = 0\<rparr>"

definition getBaseDelay :: "AntiSpamService \<Rightarrow> real" where
  "getBaseDelay this =
     (let accountAge = (case accountAge (config this) of Some a \<Rightarrow> a | None \<Rightarrow> 0) in
      if accountAge = 0 then BASE_DELAY_MS * 2
      else if accountAge < 7 then BASE_DELAY_MS * 1.5
      else BASE_DELAY_MS)"

text \<open>The failure rate of \<^verbatim>\<open>calculateDelay\<close> and \<^verbatim>\<open>getStats\<close>.\<close>

definition statsFailureRate :: "AntiSpamService \<Rightarrow> real" where
  "statsFailureRate this =
     (if successCount this + failureCount this > 0
      then real (failureCount this) / real (successCount this + failureCount this)
      else 0)"

text \<open>
  \<^verbatim>\<open>calculateDelay(isFloodWait)\<close>; the first argument is the value drawn by
  \<^verbatim>\<open>Math.random()\<close>, the second the parameter \<^verbatim>\<open>isFloodWait\<close>. \<^verbatim>\<open>Math.pow\<close> is \<open>powr\<close> and \<^verbatim>\<open>Math.round\<close>
  is \<open>round\<close> (half up).
\<close>

definition calculateDelay :: "real \<Rightarrow> bool \<Rightarrow> AntiSpamService \<Rightarrow> int" where
  "calculateDelay random floodWaitSeen this =
     (let base = getBaseDelay this;
          failureRate = statsFailureRate this;
          backoffFactor = BACKOFF_MULTIPLIER powr (max 0 failureRate);
          delay = base * backoffFactor;
          delay = (if floodWaitSeen then delay * 3 else delay);
          jitterAmount = delay * JITTER_PERCENT;
          randomJitter = (random - 0.5) * 2 * jitterAmount;
          delay = delay + randomJitter
      in min (max (round delay) 0) MAX_DELAY_MS)"

definition recordSuccess :: "AntiSpamService \<Rightarrow> AntiSpamService" where
  "recordSuccess this = this\<lparr>successCount := successCount this + 1\<rparr>"

definition recordFailure :: "AntiSpamService \<Rightarrow> AntiSpamService" where
  "recordFailure this = this\<lparr>failureCount := failureCount this + 1\<rparr>"

subsection \<open>Progress reporter\<close>

datatype ProgressStatus = P_initializing | P_sending | P_completed | P_failed

text \<open>
  The snapshot handed to \<^verbatim>\<open>saveBroadcastProgress\<close>, and the payload it builds by
  adding the campaign id and the time of the update.
\<close>

record ProgressFields =
  status :: ProgressStatus
  progress :: int
  processed :: nat
  total :: nat
  sent :: nat
  failed :: nat
  skipped :: nat
  error :: "string option"

record BroadcastProgressSnapshot = ProgressFields +
  campaignId :: string
  updated_at :: string

text \<open>
  The pooled client of \<^verbatim>\<open>redis.service.ts\<close>: each command either rejects with an
  error or resolves. The store is not under the control of the engine, so the three
  commands are functions of the caller's choosing.
\<close>

record RedisClient =
  setEx :: "string \<Rightarrow> nat \<Rightarrow> string \<Rightarrow> TelegramError + unit"
  get :: "string \<Rightarrow> TelegramError + string option"
  del :: "string \<Rightarrow> TelegramError + nat"

text \<open>
  \<^verbatim>\<open>withRedisClient(executor)\<close>: the first argument is the outcome of
  \<^verbatim>\<open>acquireRedisClient()\<close>. The \<^verbatim>\<open>finally\<close> block releases the client and
  has no throwing statement.
\<close>

definition withRedisClient ::
  "TelegramError + RedisClient \<Rightarrow> (RedisClient \<Rightarrow> TelegramError + 'a) \<Rightarrow> TelegramError + 'a" where
  "withRedisClient acquired executor =
     (case acquired of Inl e \<Rightarrow> Inl e | Inr client \<Rightarrow> executor client)"

definition PROGRESS_KEY_PREFIX :: string where "PROGRESS_KEY_PREFIX = ''broadcast:progress''"
definition PROGRESS_TTL_SECONDS :: nat where "PROGRESS_TTL_SECONDS = 60 * 60 * 24"

definition buildKey :: "string \<Rightarrow> string" where
  "buildKey cid = PROGRESS_KEY_PREFIX @ '':'' @ cid"

text \<open>
  The payload \<^verbatim>\<open>{...snapshot, campaignId, updated_at: snapshot.updated_at ?? now}\<close>;
  \<open>now\<close> is \<^verbatim>\<open>new Date().toISOString()\<close> and \<open>updatedAt\<close> the optional field of
  the argument.
\<close>

definition buildPayload ::
  "string \<Rightarrow> string \<Rightarrow> ProgressFields \<Rightarrow> string option \<Rightarrow> BroadcastProgressSnapshot" where
  "buildPayload now cid snapshot updatedAt =
     \<lparr>status = status snapshot, progress = progress snapshot,
      processed = processed snapshot, total = total snapshot, sent = sent snapshot,
      failed = failed snapshot, skipped = skipped snapshot, error = error snapshot,
      campaignId = cid,
      updated_at = (case updatedAt of Some u \<Rightarrow> u | None \<Rightarrow> now)\<rparr>"

text \<open>
  \<^verbatim>\<open>saveBroadcastProgress\<close>; \<open>stringify\<close> is \<^verbatim>\<open>JSON.stringify\<close>. A result on the
  right is a normal return, a result on the left a rejected promise.
\<close>

definition saveBroadcastProgress ::
  "TelegramError + RedisClient \<Rightarrow> (BroadcastProgressSnapshot \<Rightarrow> string) \<Rightarrow> string \<Rightarrow> string
     \<Rightarrow> ProgressFields \<Rightarrow> string option \<Rightarrow> TelegramError + BroadcastProgressSnapshot" where
  "saveBroadcastProgress acquired stringify now cid snapshot updatedAt =
     (let payload = buildPayload now cid snapshot updatedAt in
      case withRedisClient acquired
             (\<lambda>client. setEx client (buildKey cid) PROGRESS_TTL_SECONDS (stringify payload)) of
        Inl e \<Rightarrow> Inr payload
      | Inr _ \<Rightarrow> Inr payload)"

text \<open>
  \<^verbatim>\<open>readBroadcastProgress\<close>; \<open>jsonParse\<close> is \<^verbatim>\<open>JSON.parse\<close>, which throws on
  malformed text. \<open>None\<close> is \<^verbatim>\<open>null\<close>; an empty string is falsy as well.
\<close>

definition readBroadcastProgress ::
  "TelegramError + RedisClient \<Rightarrow> (string \<Rightarrow> TelegramError + 'v) \<Rightarrow> string
     \<Rightarrow> TelegramError + 'v option" where
  "readBroadcastProgress acquired jsonParse cid =
     (case withRedisClient acquired (\<lambda>client. get client (buildKey cid)) of
        Inl e \<Rightarrow> Inr None
      | Inr raw \<Rightarrow>
          (case raw of
             None \<Rightarrow> Inr None
           | Some text \<Rightarrow>
               if text = [] then Inr None
               else (case jsonParse text of
                       Inl e \<Rightarrow> Inr None
                     | Inr snapshot \<Rightarrow> Inr (Some snapshot))))"

definition clearBroadcastProgress ::
  "TelegramError + RedisClient \<Rightarrow> string \<Rightarrow> TelegramError + unit" where
  "clearBroadcastProgress acquired cid =
     (case withRedisClient acquired (\<lambda>client. del client (buildKey cid)) of
        Inl e \<Rightarrow> Inr ()
      | Inr _ \<Rightarrow> Inr ())"

subsection \<open>Campaign store\<close>

datatype CampaignStatus = C_draft | C_scheduled | C_in_progress | C_completed | C_failed

datatype JsonValue = JNum int | JStr string | JNull

text \<open>
  The columns of \<^verbatim>\<open>broadcast_campaigns\<close> that the two updates write; the table maps
  a campaign id to its row. The metadata object is a map from keys to values.
\<close>

record CampaignRow =
  row_status :: CampaignStatus
  last_sent_at :: "int option"
  row_metadata :: "string \<rightharpoonup> JsonValue"

type_synonym CampaignTable = "string \<rightharpoonup> CampaignRow"

definition campaignNotFound :: "string \<Rightarrow> TelegramError" where
  "campaignNotFound cid = newError (''Campaign '' @ cid @ '' not found'')"

definition startCampaign ::
  "string \<Rightarrow> CampaignTable \<Rightarrow> TelegramError + CampaignRow \<times> CampaignTable" where
  "startCampaign cid db =
     (case db cid of
        None \<Rightarrow> Inl (campaignNotFound cid)
      | Some row \<Rightarrow>
          (let updated = row\<lparr>row_status := C_in_progress\<rparr>
           in Inr (updated, db(cid \<mapsto> updated))))"

text \<open>
  \<^verbatim>\<open>updateCampaignStatus({campaignId, status, lastSentAt, metadata})\<close>. The object
  spread \<^verbatim>\<open>{...existing, ...metadata}\<close> is \<open>++\<close>; \<^verbatim>\<open>COALESCE($2, last_sent_at)\<close>
  keeps the column when no date is supplied; the column \<^verbatim>\<open>metadata\<close> is always
  assigned \<^verbatim>\<open>metadataValue\<close>.
\<close>

definition updateCampaignStatus ::
  "string \<Rightarrow> CampaignStatus \<Rightarrow> int option \<Rightarrow> (string \<rightharpoonup> JsonValue) option \<Rightarrow> CampaignTable
     \<Rightarrow> TelegramError + CampaignRow \<times> CampaignTable" where
  "updateCampaignStatus cid newStatus lastSentAt metadata db =
     (let metadataValue =
            (case metadata of
               None \<Rightarrow> Map.empty
             | Some patch \<Rightarrow>
                 (case db cid of
                    Some existing \<Rightarrow> row_metadata existing ++ patch
                  | None \<Rightarrow> patch))
      in case db cid of
           None \<Rightarrow> Inl (campaignNotFound cid)
         | Some row \<Rightarrow>
             (let updated = row\<lparr>row_status := newStatus,
                                last_sent_at := (case lastSentAt of
                                                   Some t \<Rightarrow> Some t
                                                 | None \<Rightarrow> last_sent_at row),
                                row_metadata := metadataValue\<rparr>
              in Inr (updated, db(cid \<mapsto> updated))))"

subsection \<open>Delivery loop\<close>

datatype OutcomeStatus = O_sent | O_failed | O_skipped

text \<open>A row of \<^verbatim>\<open>broadcast_logs\<close>, as \<^verbatim>\<open>logBroadcastOutcome\<close> inserts it.\<close>

record BroadcastLog =
  log_campaignId :: string
  log_userId :: string
  log_recipient :: string
  log_status :: OutcomeStatus
  log_errorMessage :: "string option"
  log_metadata :: "string \<rightharpoonup> JsonValue"

text \<open>
  The effects of the handler that leave no row behind, in the order in which they
  happen: the two timers, the calls of the transport, the job's progress and the
  snapshot handed to the progress reporter.
\<close>

datatype Event =
    JobProgress int
  | SaveProgress string ProgressFields
  | ClearProgress string
  | PacingDelay int
  | FloodWaitSleep nat
  | SendAttempt string
  | Connect
  | Disconnect

record World =
  campaigns :: CampaignTable
  broadcast_logs :: "BroadcastLog list"
  trace :: "Event list"
  connected :: bool

record BroadcastJob =
  data_campaignId :: string
  data_userId :: string
  data_recipients :: "string list"
  data_text :: string

record RestoredTelegramSession =
  lastUsedAt :: "int option"

text \<open>
  What the collaborators answer during one run. The recipient in turn is numbered by the
  value of \<^verbatim>\<open>processed\<close> before the iteration:
  \<^item> \<open>restoredSession\<close>: the result of \<^verbatim>\<open>restoreSession(userId)\<close>, \<open>None\<close> for \<^verbatim>\<open>null\<close>;
  \<^item> \<open>connectError\<close>: the error \<^verbatim>\<open>client.connect()\<close> rejects with, if any;
  \<^item> \<open>dateNow\<close>, \<open>finishedAt\<close>: the clock (milliseconds) when the pacing controller is
    built and when the campaign's final status is written;
  \<^item> \<open>mathRandom\<close>: the draw of \<^verbatim>\<open>Math.random()\<close> for each recipient;
  \<^item> \<open>sendError\<close>: the message of the error raised inside
    \<^verbatim>\<open>sendMessageToRecipient\<close> for each recipient, if any;
  \<^item> \<open>logError\<close>: the error \<^verbatim>\<open>logBroadcastOutcome\<close> throws for a recipient and an
    outcome, if any (the insert rejects, or returns no row);
  \<^item> \<open>numberToString\<close>: the conversion of a number inside a template literal.

  The remaining calls into libraries (\<^verbatim>\<open>job.progress\<close>, \<^verbatim>\<open>client.disconnect\<close>,
  the timers, the logger) are taken to return normally, and an update of
  \<^verbatim>\<open>broadcast_campaigns\<close> fails exactly when the row is missing.
\<close>

record Env =
  restoredSession :: "RestoredTelegramSession option"
  connectError :: "TelegramError option"
  dateNow :: int
  finishedAt :: int
  mathRandom :: "nat \<Rightarrow> real"
  sendError :: "nat \<Rightarrow> string option"
  logError :: "nat \<Rightarrow> OutcomeStatus \<Rightarrow> TelegramError option"
  numberToString :: "real \<Rightarrow> string"

text \<open>The local variables of the loop.\<close>

record LoopVars =
  n_processed :: nat
  n_sent :: nat
  n_failed :: nat
  n_skipped :: nat
  shouldRetry :: bool
  antiSpam :: AntiSpamService

record BroadcastResult =
  r_campaignId :: string
  r_sent :: nat
  r_failed :: nat
  r_skipped :: nat
  success :: bool

definition typeName :: "TelegramErrorType \<Rightarrow> string" where
  "typeName t =
     (case t of
        PEER_ID_INVALID \<Rightarrow> ''PEER_ID_INVALID''
      | USER_RESTRICTED \<Rightarrow> ''USER_RESTRICTED''
      | USER_IS_BOT \<Rightarrow> ''USER_IS_BOT''
      | FLOOD_WAIT \<Rightarrow> ''FLOOD_WAIT''
      | SESSION_EXPIRED \<Rightarrow> ''SESSION_EXPIRED''
      | CHAT_WRITE_FORBIDDEN \<Rightarrow> ''CHAT_WRITE_FORBIDDEN''
      | UNKNOWN \<Rightarrow> ''UNKNOWN'')"

definition emit :: "Event list \<Rightarrow> World \<Rightarrow> World" where
  "emit evs w = w\<lparr>trace := trace w @ evs\<rparr>"

text \<open>
  \<^verbatim>\<open>updateProgress(job, campaignId, status, processed, total, sent, failed, skipped, error)\<close>.
  The progress reporter never rejects, so the call is the two effects. The percentage
  is \<^verbatim>\<open>Math.round((processed / total) * 100)\<close>: the quotient and the product are
  doubles, and \<^verbatim>\<open>Math.round\<close> is \<open>round\<close> (half up).
\<close>

definition progressPercent :: "nat \<Rightarrow> nat \<Rightarrow> int" where
  "progressPercent nProcessed nTotal =
     (if nTotal > 0
      then round (binary64 (binary64 (real nProcessed / real nTotal) * 100))
      else 0)"

definition updateProgress ::
  "string \<Rightarrow> ProgressStatus \<Rightarrow> nat \<Rightarrow> nat \<Rightarrow> nat \<Rightarrow> nat \<Rightarrow> nat \<Rightarrow> string option
     \<Rightarrow> World \<Rightarrow> World" where
  "updateProgress cid st nProcessed nTotal nSent nFailed nSkipped err w =
     (let pct = progressPercent nProcessed nTotal in
      emit [JobProgress pct,
            SaveProgress cid
              \<lparr>status = st, progress = pct, processed = nProcessed, total = nTotal,
               sent = nSent, failed = nFailed, skipped = nSkipped, error = err\<rparr>] w)"

text \<open>
  \<^verbatim>\<open>logBroadcastOutcome\<close>: the row is appended unless the call throws. The first
  argument is the error it throws, if any.
\<close>

definition logBroadcastOutcome ::
  "TelegramError option \<Rightarrow> BroadcastLog \<Rightarrow> World \<Rightarrow> TelegramError + World" where
  "logBroadcastOutcome failure entry w =
     (case failure of
        Some e \<Rightarrow> Inl e
      | None \<Rightarrow> Inr (w\<lparr>broadcast_logs := broadcast_logs w @ [entry]\<rparr>))"

text \<open>
  The \<^verbatim>\<open>catch\<close> block inside the loop, for recipient number \<open>i\<close> and the caught
  error. An error of \<^verbatim>\<open>logBroadcastOutcome\<close> here leaves the loop. The test
  \<^verbatim>\<open>isFloodWait && floodWaitSeconds\<close> holds when the seconds are defined and not zero.
\<close>

definition onSendError ::
  "Env \<Rightarrow> BroadcastJob \<Rightarrow> nat \<Rightarrow> string \<Rightarrow> TelegramError \<Rightarrow> LoopVars \<Rightarrow> World
     \<Rightarrow> (TelegramError + LoopVars) \<times> World" where
  "onSendError env job i recipient caught v w =
     (let classification = classifyTelegramError caught in
      if isPermanent classification then
        (let v1 = v\<lparr>n_skipped := n_skipped v + 1\<rparr> in
         case logBroadcastOutcome (logError env i O_skipped)
                \<lparr>log_campaignId = data_campaignId job, log_userId = data_userId job,
                 log_recipient = recipient, log_status = O_skipped,
                 log_errorMessage = Some (''Permanent error: '' @ typeName (type classification)),
                 log_metadata = [''errorType'' \<mapsto> JStr (typeName (type classification))]\<rparr> w of
           Inl e \<Rightarrow> (Inl e, w)
         | Inr w1 \<Rightarrow> (Inr v1, w1))
      else
        (let v1 = v\<lparr>n_failed := n_failed v + 1, shouldRetry := True\<rparr> in
         case logBroadcastOutcome (logError env i O_failed)
                \<lparr>log_campaignId = data_campaignId job, log_userId = data_userId job,
                 log_recipient = recipient, log_status = O_failed,
                 log_errorMessage = Some (''Retryable error: '' @ typeName (type classification)),
                 log_metadata = [''errorType'' \<mapsto> JStr (typeName (type classification))]\<rparr> w of
           Inl e \<Rightarrow> (Inl e, w)
         | Inr w1 \<Rightarrow>
             (let v2 = v1\<lparr>antiSpam := recordFailure (antiSpam v1)\<rparr> in
              case floodWaitSeconds classification of
                Some seconds \<Rightarrow>
                  if isFloodWait classification \<and> seconds \<noteq> 0
                  then (Inr v2, emit [FloodWaitSleep (seconds * 1000)] w1)
                  else (Inr v2, w1)
              | None \<Rightarrow> (Inr v2, w1))))"

text \<open>
  \<^verbatim>\<open>sendMessageToRecipient\<close> wraps whatever is raised while resolving the entity or
  sending into a new error that quotes the recipient.
\<close>

definition sendFailure :: "string \<Rightarrow> string \<Rightarrow> TelegramError" where
  "sendFailure recipient msg =
     newError (''Failed to send message to '' @ recipient @ '': '' @ msg)"

text \<open>One iteration of the \<^verbatim>\<open>for\<close> loop.\<close>

definition processRecipient ::
  "Env \<Rightarrow> BroadcastJob \<Rightarrow> string \<Rightarrow> LoopVars \<Rightarrow> World \<Rightarrow> (TelegramError + LoopVars) \<times> World" where
  "processRecipient env job recipient v w =
     (let i = n_processed v;
          v0 = v\<lparr>n_processed := n_processed v + 1\<rparr>;
          delay = calculateDelay (mathRandom env i) False (antiSpam v0);
          w0 = emit [PacingDelay delay, SendAttempt recipient] w;
          attempt =
            (case sendError env i of
               Some msg \<Rightarrow> onSendError env job i recipient (sendFailure recipient msg) v0 w0
             | None \<Rightarrow>
                 (let v1 = v0\<lparr>antiSpam := recordSuccess (antiSpam v0), n_sent := n_sent v0 + 1\<rparr> in
                  case logBroadcastOutcome (logError env i O_sent)
                         \<lparr>log_campaignId = data_campaignId job, log_userId = data_userId job,
                          log_recipient = recipient, log_status = O_sent,
                          log_errorMessage = None, log_metadata = Map.empty\<rparr> w0 of
                    Inl e \<Rightarrow> onSendError env job i recipient e v1 w0
                  | Inr w1 \<Rightarrow> (Inr v1, w1)))
      in case attempt of
           (Inl e, w') \<Rightarrow> (Inl e, w')
         | (Inr v', w') \<Rightarrow>
             (Inr v',
              updateProgress (data_campaignId job) P_sending (n_processed v')
                (length (data_recipients job)) (n_sent v') (n_failed v') (n_skipped v') None w'))"

fun sendAll ::
  "Env \<Rightarrow> BroadcastJob \<Rightarrow> string list \<Rightarrow> LoopVars \<Rightarrow> World \<Rightarrow> (TelegramError + LoopVars) \<times> World" where
  "sendAll env job [] v w = (Inr v, w)"
| "sendAll env job (recipient # rest) v w =
     (case processRecipient env job recipient v w of
        (Inl e, w') \<Rightarrow> (Inl e, w')
      | (Inr v', w') \<Rightarrow> sendAll env job rest v' w')"

text \<open>
  The handler up to the loop: the campaign is started, the first snapshot written, the
  session restored, the client connected and the pacing controller built.
\<close>

definition accountAgeDays :: "Env \<Rightarrow> RestoredTelegramSession \<Rightarrow> real" where
  "accountAgeDays env sessionData =
     (case lastUsedAt sessionData of
        Some t \<Rightarrow> of_int ((dateNow env - t) div (1000 * 60 * 60 * 24))
      | None \<Rightarrow> 0)"

definition initialize ::
  "Env \<Rightarrow> BroadcastJob \<Rightarrow> World \<Rightarrow> (TelegramError + LoopVars) \<times> World" where
  "initialize env job w =
     (let n = length (data_recipients job) in
      case startCampaign (data_campaignId job) (campaigns w) of
        Inl e \<Rightarrow> (Inl e, w)
      | Inr (_, db) \<Rightarrow>
          (let w1 = updateProgress (data_campaignId job) P_initializing 0 n 0 0 0 None
                      (w\<lparr>campaigns := db\<rparr>) in
           case restoredSession env of
             None \<Rightarrow> (Inl (newError ''No Telegram session found for user''), w1)
           | Some sessionData \<Rightarrow>
               (case connectError env of
                  Some e \<Rightarrow> (Inl e, w1)
                | None \<Rightarrow>
                    (let w2 = emit [Connect] (w1\<lparr>connected := True\<rparr>);
                         v = \<lparr>n_processed = 0, n_sent = 0, n_failed = 0, n_skipped = 0,
                              shouldRetry = False,
                              antiSpam = newAntiSpamService
                                           \<lparr>accountAge = Some (accountAgeDays env sessionData)\<rparr>\<rparr>
                     in (Inr v, updateProgress (data_campaignId job) P_sending 0 n
                                  (n_sent v) (n_failed v) (n_skipped v) None w2)))))"

definition disconnect :: "World \<Rightarrow> World" where
  "disconnect w = emit [Disconnect] (w\<lparr>connected := False\<rparr>)"

text \<open>
  The failure rate of the run, as computed after the loop: the double
  \<^verbatim>\<open>failed / (sent + failed)\<close>.
\<close>

definition runFailureRate :: "LoopVars \<Rightarrow> real" where
  "runFailureRate v =
     (if n_sent v + n_failed v > 0
      then binary64 (real (n_failed v) / real (n_sent v + n_failed v))
      else 0)"

definition failureThreshold :: real where "failureThreshold = 0.5"

text \<open>The handler after \<^verbatim>\<open>client.disconnect()\<close>.\<close>

definition terminalDecision ::
  "Env \<Rightarrow> BroadcastJob \<Rightarrow> LoopVars \<Rightarrow> World \<Rightarrow> (TelegramError + BroadcastResult) \<times> World" where
  "terminalDecision env job v w =
     (let n = length (data_recipients job);
          failureRate = runFailureRate v
      in
      if failureRate > failureThreshold then
        (case updateCampaignStatus (data_campaignId job) C_failed (Some (finishedAt env))
                (Some [''sent'' \<mapsto> JNum (int (n_sent v)),
                       ''failed'' \<mapsto> JNum (int (n_failed v)),
                       ''skipped'' \<mapsto> JNum (int (n_skipped v)),
                       ''failureRate'' \<mapsto> JNum (round (binary64 (failureRate * 100))),
                       ''error'' \<mapsto> JStr ''High failure rate threshold exceeded''])
                (campaigns w) of
           Inl e \<Rightarrow> (Inl e, w)
         | Inr (_, db) \<Rightarrow>
             (let w1 = updateProgress (data_campaignId job) P_failed n n
                         (n_sent v) (n_failed v) (n_skipped v)
                         (Some (''Failed: '' @ numberToString env (binary64 (failureRate * 100))
                                  @ ''% failure rate''))
                         (w\<lparr>campaigns := db\<rparr>)
              in if shouldRetry v
                 then (Inl (newError ''Broadcast failed with retryable errors; will retry''), w1)
                 else (Inr \<lparr>r_campaignId = data_campaignId job, r_sent = n_sent v,
                            r_failed = n_failed v, r_skipped = n_skipped v, success = False\<rparr>,
                       w1)))
      else
        (case updateCampaignStatus (data_campaignId job) C_completed (Some (finishedAt env))
                (Some [''sent'' \<mapsto> JNum (int (n_sent v)),
                       ''failed'' \<mapsto> JNum (int (n_failed v)),
                       ''skipped'' \<mapsto> JNum (int (n_skipped v)),
                       ''totalRecipients'' \<mapsto> JNum (int n)])
                (campaigns w) of
           Inl e \<Rightarrow> (Inl e, w)
         | Inr (_, db) \<Rightarrow>
             (let w1 = updateProgress (data_campaignId job) P_completed n n
                         (n_sent v) (n_failed v) (n_skipped v) None (w\<lparr>campaigns := db\<rparr>);
                  w2 = emit [ClearProgress (data_campaignId job)] w1
              in (Inr \<lparr>r_campaignId = data_campaignId job, r_sent = n_sent v,
                       r_failed = n_failed v, r_skipped = n_skipped v, success = True\<rparr>,
                  w2))))"

text \<open>The body of the outer \<^verbatim>\<open>try\<close>.\<close>

definition deliver ::
  "Env \<Rightarrow> BroadcastJob \<Rightarrow> World \<Rightarrow> (TelegramError + BroadcastResult) \<times> World" where
  "deliver env job w =
     (case initialize env job w of
        (Inl e, w1) \<Rightarrow> (Inl e, w1)
      | (Inr v0, w1) \<Rightarrow>
          (case sendAll env job (data_recipients job) v0 w1 of
             (Inl e, w2) \<Rightarrow> (Inl e, w2)
           | (Inr v, w2) \<Rightarrow> terminalDecision env job v (disconnect w2)))"

text \<open>
  The outer \<^verbatim>\<open>catch\<close>: the campaign is marked failed, a last snapshot is written and
  the caught error is thrown again. It also catches the error that the high failure
  rate raises inside the \<^verbatim>\<open>try\<close>.
\<close>

definition onFatalError ::
  "BroadcastJob \<Rightarrow> TelegramError \<Rightarrow> World \<Rightarrow> (TelegramError + BroadcastResult) \<times> World" where
  "onFatalError job caught w =
     (let n = length (data_recipients job) in
      case updateCampaignStatus (data_campaignId job) C_failed None
             (Some [''error'' \<mapsto> JStr (message caught)]) (campaigns w) of
        Inl e \<Rightarrow> (Inl e, w)
      | Inr (_, db) \<Rightarrow>
          (Inl caught,
           updateProgress (data_campaignId job) P_failed n n 0 0 n (Some (message caught))
             (w\<lparr>campaigns := db\<rparr>)))"

definition handleBroadcastJob ::
  "Env \<Rightarrow> BroadcastJob \<Rightarrow> World \<Rightarrow> (TelegramError + BroadcastResult) \<times> World" where
  "handleBroadcastJob env job w =
     (case deliver env job w of
        (Inr result, w') \<Rightarrow> (Inr result, w')
      | (Inl caught, w') \<Rightarrow> onFatalError job caught w')"

subsection \<open>Notions used in the statements\<close>

text \<open>
  The taxonomy of the specification, as a table read from top to bottom: a keyword, the
  kind it stands for, and whether the kind is permanent. The table of the code has one
  more row.
\<close>

definition spec_taxonomy :: "(string \<times> TelegramErrorType \<times> bool) list" where
  "spec_taxonomy =
     [(''FLOOD_WAIT'', FLOOD_WAIT, False),
      (''PEER_ID_INVALID'', PEER_ID_INVALID, True),
      (''USER_RESTRICTED'', USER_RESTRICTED, True),
      (''USER_IS_BOT'', USER_IS_BOT, True),
      (''SESSION_EXPIRED'', SESSION_EXPIRED, False),
      (''CHAT_WRITE_FORBIDDEN'', CHAT_WRITE_FORBIDDEN, True)]"

definition code_taxonomy :: "(string \<times> TelegramErrorType \<times> bool) list" where
  "code_taxonomy =
     [(''FLOOD_WAIT'', FLOOD_WAIT, False),
      (''PEER_ID_INVALID'', PEER_ID_INVALID, True),
      (''USER_RESTRICTED'', USER_RESTRICTED, True),
      (''USER_IS_BOT'', USER_IS_BOT, True),
      (''SESSION_EXPIRED'', SESSION_EXPIRED, False),
      (''AUTH_KEY_UNREGISTERED'', SESSION_EXPIRED, False),
      (''CHAT_WRITE_FORBIDDEN'', CHAT_WRITE_FORBIDDEN, True)]"

text \<open>The wait carried by a throttle signal: the parsed seconds, or 30 without digits.\<close>

definition parsedWaitSeconds :: "string \<Rightarrow> nat" where
  "parsedWaitSeconds text =
     (case matchFloodWait text of Some digits \<Rightarrow> parseInt digits | None \<Rightarrow> 30)"

text \<open>
  Classification by a table: the first row whose keyword occurs in the text decides;
  a text without any keyword is \<open>UNKNOWN\<close> and not permanent.
\<close>

definition classifyByTable ::
  "(string \<times> TelegramErrorType \<times> bool) list \<Rightarrow> string \<Rightarrow> ErrorClassification" where
  "classifyByTable table text =
     (case find (\<lambda>row. includes_str text (fst row)) table of
        None \<Rightarrow>
          \<lparr>type = UNKNOWN, isPermanent = False, isFloodWait = False, floodWaitSeconds = None\<rparr>
      | Some row \<Rightarrow>
          \<lparr>type = fst (snd row), isPermanent = snd (snd row),
           isFloodWait = (fst (snd row) = FLOOD_WAIT),
           floodWaitSeconds =
             (if fst (snd row) = FLOOD_WAIT then Some (parsedWaitSeconds text) else None)\<rparr>)"

text \<open>The delay of the pacing controller before the jitter is added.\<close>

definition rawDelay :: "bool \<Rightarrow> AntiSpamService \<Rightarrow> real" where
  "rawDelay floodWaitSeen this =
     (let delay = getBaseDelay this * BACKOFF_MULTIPLIER powr (max 0 (statsFailureRate this))
      in if floodWaitSeen then delay * 3 else delay)"

text \<open>The snapshots handed to the progress reporter, oldest first.\<close>

fun snapshots :: "Event list \<Rightarrow> ProgressFields list" where
  "snapshots [] = []"
| "snapshots (SaveProgress cid p # evs) = p # snapshots evs"
| "snapshots (_ # evs) = snapshots evs"

text \<open>The time spent in flood-wait sleeps, in milliseconds.\<close>

fun floodWaitMs :: "Event list \<Rightarrow> nat" where
  "floodWaitMs [] = 0"
| "floodWaitMs (FloodWaitSleep ms # evs) = ms + floodWaitMs evs"
| "floodWaitMs (_ # evs) = floodWaitMs evs"

text \<open>
  The error that reaches the \<^verbatim>\<open>catch\<close> block of the loop for recipient number \<open>i\<close>,
  if any: the wrapped error of the send, or else the error of logging the sent outcome.
\<close>

definition caughtError :: "Env \<Rightarrow> string \<Rightarrow> nat \<Rightarrow> TelegramError option" where
  "caughtError env recipient i =
     (case sendError env i of
        Some msg \<Rightarrow> Some (sendFailure recipient msg)
      | None \<Rightarrow> logError env i O_sent)"

subsection \<open>Sample runs\<close>

text \<open>
  A campaign with one recipient and a stored row, and collaborators that all answer
  well; the runs below change one answer each.
\<close>

definition sampleJob :: BroadcastJob where
  "sampleJob =
     \<lparr>data_campaignId = ''c1'', data_userId = ''u1'', data_recipients = [''@a''],
      data_text = ''hello''\<rparr>"

definition sampleWorld :: World where
  "sampleWorld =
     \<lparr>campaigns = [''c1'' \<mapsto> \<lparr>row_status = C_scheduled, last_sent_at = None,
                               row_metadata = [''total_recipients'' \<mapsto> JNum 1]\<rparr>],
      broadcast_logs = [], trace = [], connected = False\<rparr>"

definition sampleEnv :: Env where
  "sampleEnv =
     \<lparr>restoredSession = Some \<lparr>lastUsedAt = None\<rparr>, connectError = None,
      dateNow = 0, finishedAt = 0, mathRandom = (\<lambda>i. 1 / 2),
      sendError = (\<lambda>i. None), logError = (\<lambda>i st. None),
      numberToString = (\<lambda>x. ''50'')\<rparr>"

text \<open>No stored credential.\<close>

definition envNoSession :: Env where
  "envNoSession = sampleEnv\<lparr>restoredSession := None\<rparr>"

text \<open>The message is sent, then the insert of the sent outcome throws.\<close>

definition envSentLogFails :: Env where
  "envSentLogFails =
     sampleEnv\<lparr>logError := (\<lambda>i st. if st = O_sent
                                     then Some (newError ''Failed to log broadcast outcome'')
                                     else None)\<rparr>"

text \<open>The send fails, then the insert of the failed outcome throws.\<close>

definition envFailedLogFails :: Env where
  "envFailedLogFails =
     sampleEnv\<lparr>sendError := (\<lambda>i. Some ''Connection reset''),
               logError := (\<lambda>i st. if st = O_failed
                                     then Some (newError ''Failed to log broadcast outcome'')
                                     else None)\<rparr>"

text \<open>Every send fails with a transient error.\<close>

definition envAllFail :: Env where
  "envAllFail = sampleEnv\<lparr>sendError := (\<lambda>i. Some ''Connection reset'')\<rparr>"

text \<open>The loop variables before the first recipient, for an account without history.\<close>

definition sampleVars :: LoopVars where
  "sampleVars =
     \<lparr>n_processed = 0, n_sent = 0, n_failed = 0, n_skipped = 0, shouldRetry = False,
      antiSpam = newAntiSpamService \<lparr>accountAge = Some 0\<rparr>\<rparr>"

text \<open>A second recipient; the send to the second one fails with a transient error.\<close>

definition twoRecipientJob :: BroadcastJob where
  "twoRecipientJob = sampleJob\<lparr>data_recipients := [''@a'', ''@b'']\<rparr>"

definition envSecondFails :: Env where
  "envSecondFails =
     sampleEnv\<lparr>sendError := (\<lambda>i. if i = 1 then Some ''Connection reset'' else None)\<rparr>"

text \<open>Every send fails with a permanent error, or with a throttle signal of 7 seconds.\<close>

definition envPeerInvalid :: Env where
  "envPeerInvalid = sampleEnv\<lparr>sendError := (\<lambda>i. Some ''PEER_ID_INVALID'')\<rparr>"

definition envFloodWait7 :: Env where
  "envFloodWait7 =
     sampleEnv\<lparr>sendError := (\<lambda>i. Some ''A wait of 7 seconds is required (caused by FLOOD_WAIT_7)'')\<rparr>"

text \<open>A store whose commands all reject, and one that holds text that is not JSON.\<close>

definition downClient :: RedisClient where
  "downClient =
     \<lparr>setEx = (\<lambda>k ttl v. Inl (newError ''Socket closed unexpectedly'')),
      get = (\<lambda>k. Inl (newError ''Socket closed unexpectedly'')),
      del = (\<lambda>k. Inl (newError ''Socket closed unexpectedly''))\<rparr>"

definition garbledClient :: RedisClient where
  "garbledClient =
     \<lparr>setEx = (\<lambda>k ttl v. Inr ()),
      get = (\<lambda>k. Inr (Some ''{status:'')),
      del = (\<lambda>k. Inr 1)\<rparr>"

definition sampleSnapshot :: ProgressFields where
  "sampleSnapshot =
     \<lparr>status = P_sending, progress = 50, processed = 1, total = 2, sent = 1, failed = 0,
      skipped = 0, error = None\<rparr>"

subsection \<open>Loop invariants\<close>

text \<open>The retry flag is set as soon as one recipient has failed.\<close>

definition retryFlagSet :: "LoopVars \<Rightarrow> bool" where
  "retryFlagSet v = (n_failed v > 0 \<longrightarrow> shouldRetry v)"

text \<open>Every processed recipient is counted once.\<close>

definition countsAgree :: "LoopVars \<Rightarrow> bool" where
  "countsAgree v = (n_processed v = n_sent v + n_failed v + n_skipped v)"

section \<open>Properties of the error classifier\<close>

lemma includes_str_sublist: "includes_str s p = sublist p s"
  by (induction s) (auto simp: sublist_Cons_right)

lemma takeWhile_ne_Nil: "takeWhile P xs \<noteq> [] \<longleftrightarrow> xs \<noteq> [] \<and> P (hd xs)"
  by (cases xs) auto

lemma prefix_snoc_iff:
  "prefix (p @ [d]) s \<longleftrightarrow> prefix p s \<and> drop (length p) s \<noteq> [] \<and> hd (drop (length p) s) = d"
  by (auto simp: prefix_def) (metis list.collapse)

lemma matchFloodWait_None:
  "matchFloodWait s = None \<longleftrightarrow> (\<forall>d. isDigit d \<longrightarrow> \<not> includes_str s (''FLOOD_WAIT_'' @ [d]))"
proof (induction s)
  case Nil
  then show ?case by simp
next
  case (Cons c cs)
  have "(prefix ''FLOOD_WAIT_'' (c # cs) \<and> takeWhile isDigit (drop (length ''FLOOD_WAIT_'') (c # cs)) \<noteq> [])
        \<longleftrightarrow> (\<exists>d. isDigit d \<and> prefix (''FLOOD_WAIT_'' @ [d]) (c # cs))"
    unfolding prefix_snoc_iff takeWhile_ne_Nil by blast
  then show ?case using Cons.IH
    by (simp only: matchFloodWait.simps includes_str.simps) (auto split: if_splits)
qed

lemma classify_flood_wait:
  assumes "includes_str (errorText err) ''FLOOD_WAIT''"
  shows "classifyTelegramError err =
           \<lparr>type = FLOOD_WAIT, isPermanent = False, isFloodWait = True,
            floodWaitSeconds = Some (parsedWaitSeconds (errorText err))\<rparr>"
  using assms by (simp add: classifyTelegramError_def parsedWaitSeconds_def Let_def)

text \<open>
  C5, as stated: the classifier equals the taxonomy of the specification, and a text
  outside the listed keywords is \<open>UNKNOWN\<close>. The text \<^verbatim>\<open>AUTH_KEY_UNREGISTERED\<close>
  contains none of the six keywords, and the code classifies it as \<open>SESSION_EXPIRED\<close>.
\<close>

theorem classify_unlisted_text_counterexample:
  "\<not> includes_str ''AUTH_KEY_UNREGISTERED'' ''FLOOD_WAIT''
   \<and> \<not> includes_str ''AUTH_KEY_UNREGISTERED'' ''PEER_ID_INVALID''
   \<and> \<not> includes_str ''AUTH_KEY_UNREGISTERED'' ''USER_RESTRICTED''
   \<and> \<not> includes_str ''AUTH_KEY_UNREGISTERED'' ''USER_IS_BOT''
   \<and> \<not> includes_str ''AUTH_KEY_UNREGISTERED'' ''SESSION_EXPIRED''
   \<and> \<not> includes_str ''AUTH_KEY_UNREGISTERED'' ''CHAT_WRITE_FORBIDDEN''
   \<and> type (classifyTelegramError (newError ''AUTH_KEY_UNREGISTERED'')) = SESSION_EXPIRED
   \<and> type (classifyByTable spec_taxonomy ''AUTH_KEY_UNREGISTERED'') = UNKNOWN
   \<and> classifyTelegramError (newError ''AUTH_KEY_UNREGISTERED'')
       \<noteq> classifyByTable spec_taxonomy (errorText (newError ''AUTH_KEY_UNREGISTERED''))"
  by (simp add: classifyTelegramError_def classifyByTable_def spec_taxonomy_def
                newError_def errorText_def Let_def)

text \<open>
  C5, amended: the classifier is a function of the error text alone, and it equals the
  lookup in the table of the specification extended by the row that maps
  \<^verbatim>\<open>AUTH_KEY_UNREGISTERED\<close> to \<open>SESSION_EXPIRED\<close> (not permanent): the first keyword
  of the table found in the text decides, a throttle signal carries the seconds parsed
  from the text (30 without digits), and a text without keyword is \<open>UNKNOWN\<close>.
\<close>

theorem classifyTelegramError_taxonomy:
  "classifyTelegramError err = classifyByTable code_taxonomy (errorText err)"
  by (simp add: classifyTelegramError_def classifyByTable_def code_taxonomy_def
                parsedWaitSeconds_def Let_def)

theorem classifyTelegramError_taxonomy_witness:
  "classifyTelegramError
     \<lparr>errorMessage = Some ''A wait of 17 seconds is required (caused by FLOOD_WAIT_17)'',
      message = ''420''\<rparr>
   = \<lparr>type = FLOOD_WAIT, isPermanent = False, isFloodWait = True, floodWaitSeconds = Some 17\<rparr>"
  using classifyTelegramError_taxonomy
          [of "\<lparr>errorMessage = Some ''A wait of 17 seconds is required (caused by FLOOD_WAIT_17)'',
                message = ''420''\<rparr>"]
  by (simp add: classifyByTable_def code_taxonomy_def parsedWaitSeconds_def errorText_def
                isDigit_def parseInt_def)

text \<open>
  C10: an error whose text contains \<^verbatim>\<open>FLOOD_WAIT\<close> but no \<^verbatim>\<open>FLOOD_WAIT_\<close>
  followed by a digit is classified with 30 seconds of wait, and the \<^verbatim>\<open>catch\<close>
  block of the loop that receives it sleeps 30000 ms before the loop goes on (or the
  insert of the failed outcome throws and the loop is left).
\<close>

theorem flood_wait_without_digits_sleeps_30:
  assumes "includes_str (errorText err) ''FLOOD_WAIT''"
    and "\<forall>d. isDigit d \<longrightarrow> \<not> includes_str (errorText err) (''FLOOD_WAIT_'' @ [d])"
  shows "floodWaitSeconds (classifyTelegramError err) = Some 30
         \<and> ((\<exists>e. logError env i O_failed = Some e
                  \<and> onSendError env job i recipient err v w = (Inl e, w))
            \<or> (\<exists>v' w'. onSendError env job i recipient err v w = (Inr v', w')
                  \<and> trace w' = trace w @ [FloodWaitSleep (30 * 1000)]))"
proof -
  have none: "matchFloodWait (errorText err) = None"
    using assms(2) by (simp add: matchFloodWait_None)
  have cls: "classifyTelegramError err =
               \<lparr>type = FLOOD_WAIT, isPermanent = False, isFloodWait = True,
                floodWaitSeconds = Some 30\<rparr>"
    using classify_flood_wait [OF assms(1)] none by (simp add: parsedWaitSeconds_def)
  show ?thesis
    by (cases "logError env i O_failed")
       (simp_all add: cls onSendError_def logBroadcastOutcome_def emit_def Let_def)
qed

theorem flood_wait_without_digits_sleeps_30_witness:
  "includes_str (errorText (sendFailure ''@a'' ''FLOOD_WAIT (420)'')) ''FLOOD_WAIT''
   \<and> matchFloodWait (errorText (sendFailure ''@a'' ''FLOOD_WAIT (420)'')) = None
   \<and> floodWaitSeconds (classifyTelegramError (sendFailure ''@a'' ''FLOOD_WAIT (420)'')) = Some 30
   \<and> trace (snd (onSendError sampleEnv sampleJob 0 ''@a''
                    (sendFailure ''@a'' ''FLOOD_WAIT (420)'') sampleVars sampleWorld))
       = [FloodWaitSleep 30000]"
proof -
  have h1: "includes_str (errorText (sendFailure ''@a'' ''FLOOD_WAIT (420)'')) ''FLOOD_WAIT''"
    by (simp add: sendFailure_def newError_def errorText_def)
  have h2: "\<forall>d. isDigit d \<longrightarrow>
          \<not> includes_str (errorText (sendFailure ''@a'' ''FLOOD_WAIT (420)'')) (''FLOOD_WAIT_'' @ [d])"
    by (simp add: sendFailure_def newError_def errorText_def)
  have h3: "matchFloodWait (errorText (sendFailure ''@a'' ''FLOOD_WAIT (420)'')) = None"
    using h2 by (simp only: matchFloodWait_None)
  show ?thesis
    using h1 h3
      flood_wait_without_digits_sleeps_30 [OF h1 h2, of sampleEnv 0 sampleJob "''@a''" sampleVars sampleWorld]
    by (auto simp: sampleEnv_def sampleWorld_def)
qed

section \<open>Properties of the pacing controller\<close>

lemma getBaseDelay_pos: "0 < getBaseDelay this"
  by (simp add: getBaseDelay_def BASE_DELAY_MS_def Let_def)

lemma getBaseDelay_config: "config a = config b \<Longrightarrow> getBaseDelay a = getBaseDelay b"
  by (simp add: getBaseDelay_def)

lemma jittered_mono:
  fixes u x y :: real
  assumes "0 \<le> u" "x \<le> y"
  shows "x + (u - 0.5) * 2 * (x * JITTER_PERCENT) \<le> y + (u - 0.5) * 2 * (y * JITTER_PERCENT)"
proof -
  have "x + (u - 0.5) * 2 * (x * JITTER_PERCENT) = x * (0.8 + 0.4 * u)" for x
    by (simp add: JITTER_PERCENT_def algebra_simps)
  moreover have "x * (0.8 + 0.4 * u) \<le> y * (0.8 + 0.4 * u)"
    using assms by (intro mult_right_mono) auto
  ultimately show ?thesis by simp
qed

lemma backoff_mono:
  assumes "statsFailureRate a \<le> statsFailureRate b"
  shows "BACKOFF_MULTIPLIER powr (max 0 (statsFailureRate a)) \<le> BACKOFF_MULTIPLIER powr (max 0 (statsFailureRate b))"
proof (rule powr_mono)
  show "max 0 (statsFailureRate a) \<le> max 0 (statsFailureRate b)" using assms by linarith
  show "1 \<le> BACKOFF_MULTIPLIER" by (simp add: BACKOFF_MULTIPLIER_def)
qed

lemma calculateDelay_raw:
  "calculateDelay random fw this =
     min (max (round (rawDelay fw this + (random - 0.5) * 2 * (rawDelay fw this * JITTER_PERCENT))) 0) MAX_DELAY_MS"
  by (simp add: calculateDelay_def rawDelay_def Let_def)

lemma rawDelay_mono:
  assumes "config a = config b" "statsFailureRate a \<le> statsFailureRate b"
  shows "rawDelay fw a \<le> rawDelay fw b"
proof -
  have "getBaseDelay a * BACKOFF_MULTIPLIER powr (max 0 (statsFailureRate a))
        \<le> getBaseDelay b * BACKOFF_MULTIPLIER powr (max 0 (statsFailureRate b))"
    unfolding getBaseDelay_config [OF assms(1)]
    using backoff_mono [OF assms(2)] getBaseDelay_pos [of b]
    by (intro mult_left_mono) simp_all
  then show ?thesis
    by (simp add: rawDelay_def Let_def)
qed

text \<open>
  C6: the delay lies between 0 and \<open>MAX_DELAY_MS\<close> for every state, flag and draw; and
  for one draw in \<open>[0, 1)\<close>, one account and one flag, a state with a larger failure
  rate gets a delay that is at least as long.
\<close>

theorem calculateDelay_range_mono:
  "0 \<le> calculateDelay random fw this \<and>
   calculateDelay random fw this \<le> MAX_DELAY_MS \<and>
   (0 \<le> random \<and> random < 1 \<and> config a = config b \<and> statsFailureRate a \<le> statsFailureRate b
      \<longrightarrow> calculateDelay random fw a \<le> calculateDelay random fw b)"
proof (intro conjI impI)
  show "0 \<le> calculateDelay random fw this"
    by (simp add: calculateDelay_raw MAX_DELAY_MS_def)
  show "calculateDelay random fw this \<le> MAX_DELAY_MS"
    by (simp add: calculateDelay_raw)
  assume h: "0 \<le> random \<and> random < 1 \<and> config a = config b \<and> statsFailureRate a \<le> statsFailureRate b"
  then have "rawDelay fw a \<le> rawDelay fw b" by (simp add: rawDelay_mono)
  then have "round (rawDelay fw a + (random - 0.5) * 2 * (rawDelay fw a * JITTER_PERCENT))
      \<le> round (rawDelay fw b + (random - 0.5) * 2 * (rawDelay fw b * JITTER_PERCENT))"
    using h by (intro round_mono jittered_mono) simp_all
  then show "calculateDelay random fw a \<le> calculateDelay random fw b"
    unfolding calculateDelay_raw by linarith
qed

theorem calculateDelay_range_mono_witness:
  "(0::real) \<le> 0.25 \<and> (0.25::real) < 1
   \<and> statsFailureRate \<lparr>config = \<lparr>accountAge = Some 3\<rparr>, failureCount = 1, successCount = 3\<rparr>
       \<le> statsFailureRate \<lparr>config = \<lparr>accountAge = Some 3\<rparr>, failureCount = 2, successCount = 2\<rparr>
   \<and> 0 \<le> calculateDelay 0.25 True \<lparr>config = \<lparr>accountAge = Some 3\<rparr>, failureCount = 1, successCount = 3\<rparr>
   \<and> calculateDelay 0.25 True \<lparr>config = \<lparr>accountAge = Some 3\<rparr>, failureCount = 1, successCount = 3\<rparr> \<le> 5000
   \<and> calculateDelay 0.25 False \<lparr>config = \<lparr>accountAge = Some 3\<rparr>, failureCount = 1, successCount = 3\<rparr>
   \<le> calculateDelay 0.25 False \<lparr>config = \<lparr>accountAge = Some 3\<rparr>, failureCount = 2, successCount = 2\<rparr>"
  using calculateDelay_range_mono [where random = "0.25" and fw = True,
            of "\<lparr>config = \<lparr>accountAge = Some 3\<rparr>, failureCount = 1, successCount = 3\<rparr>"]
        calculateDelay_range_mono [where random = "0.25" and fw = False and a = "\<lparr>config = \<lparr>accountAge = Some 3\<rparr>, failureCount = 1, successCount = 3\<rparr>"
     and b = "\<lparr>config = \<lparr>accountAge = Some 3\<rparr>, failureCount = 2, successCount = 2\<rparr>"]
  by (simp add: statsFailureRate_def MAX_DELAY_MS_def)

section \<open>Properties of the progress reporter\<close>

lemma readBroadcastProgress_returns:
  "\<exists>r. readBroadcastProgress acquired jsonParse cid = Inr r"
  by (simp add: readBroadcastProgress_def withRedisClient_def
           split: sum.splits option.splits)

text \<open>
  C9: whatever the store does, \<^verbatim>\<open>saveBroadcastProgress\<close> returns the payload it
  built, \<^verbatim>\<open>clearBroadcastProgress\<close> returns, and \<^verbatim>\<open>readBroadcastProgress\<close>
  returns; it returns \<^verbatim>\<open>null\<close> when no client can be acquired, when the
  \<^verbatim>\<open>GET\<close> rejects and when the stored text does not parse.
\<close>

theorem progress_reporter_never_throws:
  "saveBroadcastProgress acquired stringify now cid snapshot updatedAt
     = Inr (buildPayload now cid snapshot updatedAt)
   \<and> clearBroadcastProgress acquired cid = Inr ()
   \<and> (\<exists>r. readBroadcastProgress acquired jsonParse cid = Inr r)
   \<and> (\<forall>e. acquired = Inl e \<longrightarrow> readBroadcastProgress acquired jsonParse cid = Inr None)
   \<and> (\<forall>client e. acquired = Inr client \<and> get client (buildKey cid) = Inl e
          \<longrightarrow> readBroadcastProgress acquired jsonParse cid = Inr None)
   \<and> (\<forall>client raw e. acquired = Inr client \<and> get client (buildKey cid) = Inr (Some raw)
            \<and> jsonParse raw = Inl e
          \<longrightarrow> readBroadcastProgress acquired jsonParse cid = Inr None)"
proof (intro conjI allI impI)
  show "saveBroadcastProgress acquired stringify now cid snapshot updatedAt
          = Inr (buildPayload now cid snapshot updatedAt)"
    by (simp add: saveBroadcastProgress_def Let_def split: sum.splits)
  show "clearBroadcastProgress acquired cid = Inr ()"
    by (simp add: clearBroadcastProgress_def split: sum.splits)
  show "\<exists>r. readBroadcastProgress acquired jsonParse cid = Inr r"
    by (rule readBroadcastProgress_returns)
next
  fix e assume "acquired = Inl e"
  then show "readBroadcastProgress acquired jsonParse cid = Inr None"
    by (simp add: readBroadcastProgress_def withRedisClient_def)
next
  fix client e assume "acquired = Inr client \<and> get client (buildKey cid) = Inl e"
  then show "readBroadcastProgress acquired jsonParse cid = Inr None"
    by (simp add: readBroadcastProgress_def withRedisClient_def)
next
  fix client raw e
  assume "acquired = Inr client \<and> get client (buildKey cid) = Inr (Some raw) \<and> jsonParse raw = Inl e"
  then show "readBroadcastProgress acquired jsonParse cid = Inr None"
    by (simp add: readBroadcastProgress_def withRedisClient_def)
qed

theorem progress_reporter_never_throws_witness:
  "saveBroadcastProgress (Inr downClient) (\<lambda>p. ''{}'') ''2024-01-01T00:00:00.000Z'' ''c1''
      sampleSnapshot None
     = Inr (buildPayload ''2024-01-01T00:00:00.000Z'' ''c1'' sampleSnapshot None)
   \<and> clearBroadcastProgress (Inr downClient) ''c1'' = Inr ()
   \<and> readBroadcastProgress (Inl (newError ''Redis pool exhausted''))
        (\<lambda>text. Inl (newError ''Unexpected token'') :: TelegramError + BroadcastProgressSnapshot) ''c1''
       = Inr None
   \<and> readBroadcastProgress (Inr downClient)
        (\<lambda>text. Inl (newError ''Unexpected token'') :: TelegramError + BroadcastProgressSnapshot) ''c1''
       = Inr None
   \<and> readBroadcastProgress (Inr garbledClient)
        (\<lambda>text. Inl (newError ''Unexpected token'') :: TelegramError + BroadcastProgressSnapshot) ''c1''
       = Inr None"
  using progress_reporter_never_throws
          [of "Inr downClient" "\<lambda>p. ''{}''" "''2024-01-01T00:00:00.000Z''" "''c1''" sampleSnapshot None
              "\<lambda>text. Inl (newError ''Unexpected token'') :: TelegramError + BroadcastProgressSnapshot"]
        progress_reporter_never_throws
          [of "Inl (newError ''Redis pool exhausted'')" "\<lambda>p. ''{}''" "''2024-01-01T00:00:00.000Z''" "''c1''" sampleSnapshot None
              "\<lambda>text. Inl (newError ''Unexpected token'') :: TelegramError + BroadcastProgressSnapshot"]
        progress_reporter_never_throws
          [of "Inr garbledClient" "\<lambda>p. ''{}''" "''2024-01-01T00:00:00.000Z''" "''c1''" sampleSnapshot None
              "\<lambda>text. Inl (newError ''Unexpected token'') :: TelegramError + BroadcastProgressSnapshot"]
  by (simp add: downClient_def garbledClient_def)

section \<open>Properties of the campaign store\<close>

text \<open>With a patch, the keys outside the patch keep their values.\<close>

lemma updateCampaignStatus_merge_patch:
  assumes "db cid = Some row"
  shows "\<exists>updated. updateCampaignStatus cid st t (Some patch) db = Inr (updated, db(cid \<mapsto> updated))
           \<and> row_status updated = st
           \<and> (\<forall>k. k \<notin> dom patch \<longrightarrow> row_metadata updated k = row_metadata row k)
           \<and> (\<forall>k. k \<in> dom patch \<longrightarrow> row_metadata updated k = patch k)"
  using assms
  by (auto simp: updateCampaignStatus_def Let_def map_add_def split: option.splits)

text \<open>
  C8, on the code: a call without a metadata patch on a row whose metadata holds
  \<^verbatim>\<open>total_recipients\<close> stores the empty object.
\<close>

theorem updateCampaignStatus_without_patch_resets_metadata:
  "updateCampaignStatus ''c1'' C_scheduled None None (campaigns sampleWorld)
     = Inr (\<lparr>row_status = C_scheduled, last_sent_at = None, row_metadata = Map.empty\<rparr>,
            (campaigns sampleWorld)
              (''c1'' \<mapsto> \<lparr>row_status = C_scheduled, last_sent_at = None, row_metadata = Map.empty\<rparr>))
   \<and> row_metadata (the (campaigns sampleWorld ''c1'')) ''total_recipients'' = Some (JNum 1)"
  by (simp add: updateCampaignStatus_def sampleWorld_def Let_def)

section \<open>Properties of double arithmetic\<close>

lemma floor_log2_eq:
  assumes "0 < x" "2 powr of_int e \<le> x" "x < 2 powr of_int (e + 1)"
  shows "\<lfloor>log 2 x\<rfloor> = e"
proof (rule floor_unique)
  show "of_int e \<le> log 2 x" using assms by (simp add: le_log_iff)
  show "log 2 x < of_int e + 1" using assms by (simp add: log_less_iff)
qed

lemma binary64_at:
  assumes "0 < x" "2 powr of_int e \<le> x" "x < 2 powr of_int (e + 1)"
  shows "binary64 x = of_int (roundTiesToEven (x / 2 powr of_int (e - 52))) * 2 powr of_int (e - 52)"
  using assms floor_log2_eq [OF assms] by (simp add: binary64_def Let_def)

lemma roundTiesToEven_of_int: "roundTiesToEven (of_int k) = k"
  by (simp add: roundTiesToEven_def)

lemma binary64_one: "binary64 1 = 1"
  using binary64_at [of 1 0] by (simp add: powr_minus_divide roundTiesToEven_def)

lemma binary64_half: "binary64 (1 / 2) = 1 / 2"
  using binary64_at [of "1/2" "-1"] by (simp add: powr_minus_divide roundTiesToEven_def)

lemma binary64_hundred: "binary64 100 = 100"
  using binary64_at [of 100 6] by (simp add: powr_minus_divide roundTiesToEven_def)


lemma roundTiesToEven_ge:
  assumes "of_int k \<le> x"
  shows "k \<le> roundTiesToEven x"
proof -
  have "k \<le> \<lfloor>x\<rfloor>" using assms by (simp add: le_floor_iff)
  then show ?thesis by (simp add: roundTiesToEven_def Let_def)
qed

lemma roundTiesToEven_le:
  assumes "x \<le> of_int k"
  shows "roundTiesToEven x \<le> k"
proof (cases "x = of_int k")
  case True
  then show ?thesis by (simp add: roundTiesToEven_def)
next
  case False
  with assms have "x < of_int k" by simp
  then have "\<lfloor>x\<rfloor> < k" by (simp add: floor_less_iff)
  then show ?thesis by (simp add: roundTiesToEven_def Let_def)
qed

text \<open>Below one half a positive number rounds to at most one half.\<close>

lemma binary64_le_half:
  assumes "0 < x" "x < 1 / 2"
  shows "binary64 x \<le> 1 / 2"
proof -
  define e where "e = \<lfloor>log 2 x\<rfloor>"
  have "log 2 x < log 2 (1 / 2)" using assms by (simp del: log_divide add: log_less_cancel_iff)
  then have "log 2 x < - 1" by (simp add: log_divide)
  then have e: "e \<le> - 2" unfolding e_def by (simp add: floor_le_iff)
  have "log 2 x < of_int e + 1" unfolding e_def by linarith
  then have "log 2 x < of_int (e + 1)" by simp
  then have up: "x < 2 powr of_int (e + 1)" using assms(1) by (simp only: log_less_iff)
  have eq: "binary64 x = of_int (roundTiesToEven (x / 2 powr of_int (e - 52))) * 2 powr of_int (e - 52)"
    using assms(1) by (simp add: binary64_def Let_def e_def)
  have "x / 2 powr of_int (e - 52) \<le> 2 powr of_int (e + 1) / 2 powr of_int (e - 52)"
    using up by (simp add: divide_right_mono)
  also have "\<dots> = 2 powr 53" by (simp add: powr_diff [symmetric])
  also have "\<dots> = of_int (2 ^ 53)" by (simp add: powr_numeral)
  finally have "roundTiesToEven (x / 2 powr of_int (e - 52)) \<le> 2 ^ 53"
    by (rule roundTiesToEven_le)
  then have "of_int (roundTiesToEven (x / 2 powr of_int (e - 52))) \<le> (2 powr 53 :: real)"
    by (simp add: powr_numeral)
  then have "binary64 x \<le> 2 powr 53 * 2 powr of_int (e - 52)"
    unfolding eq by (intro mult_right_mono) simp_all
  also have "\<dots> = 2 powr of_int (e + 1)"
  proof -
    have "(2::real) powr 53 * 2 powr of_int (e - 52) = 2 powr (53 + of_int (e - 52))"
      by (simp only: powr_add)
    also have "53 + real_of_int (e - 52) = of_int (e + 1)" by simp
    finally show ?thesis .
  qed
  also have "\<dots> \<le> 2 powr (- 1)" using e by (intro powr_mono) simp_all
  also have "\<dots> = 1 / 2" by (simp add: powr_minus_divide)
  finally show ?thesis .
qed

text \<open>From the next double after one half on, a number below one rounds above one half.\<close>

lemma binary64_gt_half:
  assumes "1 / 2 + 1 / 2 ^ 53 \<le> x" "x < 1"
  shows "1 / 2 < binary64 x"
proof -
  have "(0::real) < 1 / 2 ^ 53" by simp
  with assms(1) have pos: "0 < x" and half: "1 / 2 \<le> x" by linarith+
  have lo: "2 powr of_int (- 1) \<le> x"
    using half by (simp add: powr_minus_divide)
  have hi: "x < 2 powr of_int (- 1 + 1)" using assms(2) by simp
  have eq: "binary64 x = of_int (roundTiesToEven (x * 2 ^ 53)) / 2 ^ 53"
    using binary64_at [OF pos lo hi] by (simp add: powr_minus_divide)
  have "(1 / 2 + 1 / 2 ^ 53) * 2 ^ 53 \<le> x * 2 ^ 53"
    using assms(1) by (intro mult_right_mono) simp_all
  then have "of_int (2 ^ 52 + 1) \<le> x * 2 ^ 53" by simp
  then have "2 ^ 52 + 1 \<le> roundTiesToEven (x * 2 ^ 53)" by (rule roundTiesToEven_ge)
  then have "of_int (2 ^ 52 + 1) \<le> (of_int (roundTiesToEven (x * 2 ^ 53)) :: real)"
    by (simp only: of_int_le_iff)
  then have "(2 ^ 52 + 1) / 2 ^ 53 \<le> binary64 x"
    unfolding eq by (simp add: divide_right_mono)
  then show ?thesis by simp
qed


text \<open>
  The progress after all recipients is 100, and a percentage is rounded as the doubles
  are: 23 of 40 is 57, where the exact quotient would give 58.
\<close>

lemma progressPercent_full: "n > 0 \<Longrightarrow> progressPercent n n = 100"
  by (simp add: progressPercent_def binary64_one binary64_hundred)

lemma binary64_23_40: "binary64 (23 / 40) = 5179139571476070 / 2 ^ 53"
  using binary64_at [of "23 / 40" "-1"]
  by (simp add: powr_minus_divide roundTiesToEven_def)

lemma binary64_23_40_times_100:
  "binary64 (5179139571476070 / 2 ^ 53 * 100) = 8092405580431359 / 2 ^ 47"
  using binary64_at [of "5179139571476070 / 2 ^ 53 * 100" 5]
  by (simp add: powr_minus_divide roundTiesToEven_def)

lemma progressPercent_23_40: "progressPercent 23 40 = 57"
proof -
  have "progressPercent 23 40 = round (binary64 (binary64 (23 / 40) * 100))"
    by (simp add: progressPercent_def)
  also have "\<dots> = round (binary64 (5179139571476070 / 2 ^ 53 * 100))"
    by (simp only: binary64_23_40)
  also have "\<dots> = round (8092405580431359 / 2 ^ 47 :: real)"
    by (simp only: binary64_23_40_times_100)
  also have "\<dots> = 57"
    by (simp add: round_def)
  finally show ?thesis .
qed

text \<open>With 17 sent and 23 failed the percentage stored with the campaign is 57.\<close>

lemma failureRate_percent_17_23:
  assumes "n_sent v = 17" "n_failed v = 23"
  shows "round (binary64 (runFailureRate v * 100)) = 57"
proof -
  have "runFailureRate v = binary64 (23 / 40)"
    using assms by (simp add: runFailureRate_def)
  then have "round (binary64 (runFailureRate v * 100))
               = round (binary64 (5179139571476070 / 2 ^ 53 * 100))"
    by (simp only: binary64_23_40)
  also have "\<dots> = round (8092405580431359 / 2 ^ 47 :: real)"
    by (simp only: binary64_23_40_times_100)
  also have "\<dots> = 57"
    by (simp add: round_def)
  finally show ?thesis .
qed

text \<open>
  The failure rate of a run is above one half exactly when more recipients failed than
  were sent, for all counts an array can reach: rounding the quotient to a double does
  not move it across the threshold.
\<close>

lemma runFailureRate_above_half:
  assumes "n_sent v + n_failed v \<le> 2 ^ 52"
  shows "(runFailureRate v > 1 / 2) = (n_failed v > n_sent v)"
proof -
  define a where "a = real (n_failed v)"
  define b where "b = real (n_sent v)"
  have ab: "0 \<le> a" "0 \<le> b" "a + b \<le> 2 ^ 52"
    using assms unfolding a_def b_def
    by simp_all
  have rate: "runFailureRate v = (if a + b > 0 then binary64 (a / (a + b)) else 0)"
    by (simp add: runFailureRate_def a_def b_def add.commute)
  have cmp: "(n_failed v > n_sent v) = (a > b)" by (simp add: a_def b_def)
  consider (none) "a = 0" | (equal) "a = b" "0 < a" | (less) "0 < a" "a < b" | (all) "0 < a" "b = 0"
    | (more) "0 < b" "b < a"
    using ab by linarith
  then show ?thesis
  proof cases
    case none
    then show ?thesis using ab(2) by (auto simp: rate cmp binary64_def)
  next
    case equal
    then have "a / (a + b) = 1 / 2" by simp
    with equal show ?thesis by (simp add: rate cmp binary64_half)
  next
    case less
    then have "0 < a / (a + b)" "a / (a + b) < 1 / 2" by (simp_all add: field_simps)
    from binary64_le_half [OF this] less show ?thesis by (simp add: rate cmp)
  next
    case all
    then show ?thesis by (simp add: rate cmp binary64_one)
  next
    case more
    have int: "b + 1 \<le> a"
      using more(2) unfolding a_def b_def
      by (metis Suc_leI of_nat_Suc of_nat_le_iff of_nat_less_iff add.commute)
    have "(a + b) / 2 ^ 53 \<le> 1 / 2" using ab(3) by simp
    also have "\<dots> \<le> (a - b) / 2" using int by simp
    finally have h: "(a + b) / 2 ^ 53 \<le> (a - b) / 2" .
    have "(a + b) * (1 / 2 + 1 / 2 ^ 53) = (a + b) / 2 + (a + b) / 2 ^ 53"
      by (simp add: distrib_left)
    also have "\<dots> \<le> (a + b) / 2 + (a - b) / 2" using h by linarith
    also have "\<dots> = a" by (simp add: field_simps)
    finally have "(a + b) * (1 / 2 + 1 / 2 ^ 53) \<le> a" .
    then have lo: "1 / 2 + 1 / 2 ^ 53 \<le> a / (a + b)"
      using more ab by (simp add: pos_le_divide_eq mult.commute)
    have hi: "a / (a + b) < 1" using more by simp
    from binary64_gt_half [OF lo hi] more show ?thesis by (simp add: rate cmp)
  qed
qed

section \<open>Properties of the delivery loop\<close>

subsection \<open>What one step leaves unchanged\<close>

lemma snapshots_append: "snapshots (xs @ ys) = snapshots xs @ snapshots ys"
  by (induction xs rule: snapshots.induct) simp_all

lemma floodWaitMs_append: "floodWaitMs (xs @ ys) = floodWaitMs xs + floodWaitMs ys"
  by (induction xs rule: floodWaitMs.induct) simp_all

lemma updateProgress_frame:
  "campaigns (updateProgress cid st p t s f k e w) = campaigns w"
  "broadcast_logs (updateProgress cid st p t s f k e w) = broadcast_logs w"
  "connected (updateProgress cid st p t s f k e w) = connected w"
  "trace (updateProgress cid st p t s f k e w) =
     trace w @ [JobProgress (progressPercent p t),
                SaveProgress cid \<lparr>status = st, progress = progressPercent p t, processed = p, total = t,
                                  sent = s, failed = f, skipped = k, error = e\<rparr>]"
  by (simp_all add: updateProgress_def emit_def Let_def)

lemma onSendError_frame:
  assumes "onSendError env job i r c v w = (res, w')"
  shows "campaigns w' = campaigns w \<and> connected w' = connected w"
  using assms
  by (auto simp: onSendError_def logBroadcastOutcome_def emit_def Let_def
           split: if_splits option.splits)

lemma processRecipient_frame:
  assumes "processRecipient env job r v w = (res, w')"
  shows "campaigns w' = campaigns w \<and> connected w' = connected w"
proof -
  let ?w0 = "emit [PacingDelay (calculateDelay (mathRandom env (n_processed v)) False (antiSpam (v\<lparr>n_processed := n_processed v + 1\<rparr>))), SendAttempt r] w"
  have w0: "campaigns ?w0 = campaigns w \<and> connected ?w0 = connected w" by (simp add: emit_def)
  show ?thesis using assms w0
    by (auto simp: processRecipient_def Let_def logBroadcastOutcome_def updateProgress_frame
             split: option.splits sum.splits prod.splits dest!: onSendError_frame)
qed

lemma sendAll_frame:
  "sendAll env job rs v w = (res, w') \<Longrightarrow> campaigns w' = campaigns w \<and> connected w' = connected w"
proof (induction rs arbitrary: v w)
  case Nil
  then show ?case by simp
next
  case (Cons r rs)
  obtain res1 w1 where step: "processRecipient env job r v w = (res1, w1)" by (cases "processRecipient env job r v w")
  note fr = processRecipient_frame [OF step]
  show ?case
  proof (cases res1)
    case (Inl e)
    with Cons.prems step fr show ?thesis by simp
  next
    case (Inr v1)
    with Cons.prems step have "sendAll env job rs v1 w1 = (res, w')" by simp
    from Cons.IH [OF this] fr show ?thesis by simp
  qed
qed

subsection \<open>The campaign row stays in the table\<close>

lemma startCampaign_cases:
  "(db cid = None \<and> startCampaign cid db = Inl (campaignNotFound cid))
   \<or> (\<exists>row. db cid = Some row
         \<and> startCampaign cid db = Inr (row\<lparr>row_status := C_in_progress\<rparr>, db(cid \<mapsto> row\<lparr>row_status := C_in_progress\<rparr>)))"
  by (cases "db cid") (simp_all add: startCampaign_def Let_def)

lemma updateCampaignStatus_present:
  assumes "db cid = Some row"
  shows "updateCampaignStatus cid st t (Some patch) db =
           Inr (row\<lparr>row_status := st,
                     last_sent_at := (case t of Some x \<Rightarrow> Some x | None \<Rightarrow> last_sent_at row),
                     row_metadata := row_metadata row ++ patch\<rparr>,
                db(cid \<mapsto> row\<lparr>row_status := st,
                     last_sent_at := (case t of Some x \<Rightarrow> Some x | None \<Rightarrow> last_sent_at row),
                     row_metadata := row_metadata row ++ patch\<rparr>))"
  using assms by (simp add: updateCampaignStatus_def Let_def)

lemma initialize_row:
  assumes "initialize env job w = (res, w1)" and "campaigns w (data_campaignId job) \<noteq> None"
  shows "campaigns w1 (data_campaignId job) \<noteq> None"
  using assms startCampaign_cases [of "campaigns w" "data_campaignId job"]
  by (auto simp: initialize_def Let_def updateProgress_frame emit_def
           split: option.splits)

lemma initialize_ok:
  assumes "initialize env job w = (Inr v0, w1)"
  shows "campaigns w1 (data_campaignId job) \<noteq> None \<and> campaigns w (data_campaignId job) \<noteq> None
         \<and> n_sent v0 = 0 \<and> n_failed v0 = 0 \<and> n_skipped v0 = 0 \<and> n_processed v0 = 0
         \<and> \<not> shouldRetry v0 \<and> connected w1"
  using assms startCampaign_cases [of "campaigns w" "data_campaignId job"]
  by (auto simp: initialize_def Let_def updateProgress_frame emit_def
           split: option.splits)

lemma terminalDecision_row:
  assumes "terminalDecision env job v w = (res, w1)" and "campaigns w (data_campaignId job) \<noteq> None"
  shows "campaigns w1 (data_campaignId job) \<noteq> None"
proof -
  from assms(2) obtain row where row: "campaigns w (data_campaignId job) = Some row" by blast
  show ?thesis
    using assms(1)
    by (auto simp: terminalDecision_def Let_def updateCampaignStatus_present [of "campaigns w" "data_campaignId job", OF row]
                   updateProgress_frame emit_def split: if_splits)
qed

lemma deliver_row:
  assumes "deliver env job w = (res, w1)" and "campaigns w (data_campaignId job) \<noteq> None"
  shows "campaigns w1 (data_campaignId job) \<noteq> None"
proof -
  obtain r0 wa where init: "initialize env job w = (r0, wa)" by (cases "initialize env job w")
  have rowa: "campaigns wa (data_campaignId job) \<noteq> None" by (rule initialize_row [OF init assms(2)])
  show ?thesis
  proof (cases r0)
    case (Inl e)
    with assms(1) init rowa show ?thesis by (simp add: deliver_def)
  next
    case (Inr v0)
    obtain r1 wb where loop: "sendAll env job (data_recipients job) v0 wa = (r1, wb)"
      by (cases "sendAll env job (data_recipients job) v0 wa")
    have rowb: "campaigns wb (data_campaignId job) \<noteq> None"
      using sendAll_frame [OF loop] rowa by simp
    show ?thesis
    proof (cases r1)
      case (Inl e)
      with assms(1) init Inr loop rowb show ?thesis by (simp add: deliver_def)
    next
      case (Inr v)
      with assms(1) init \<open>r0 = Inr v0\<close> loop
      have "terminalDecision env job v (disconnect wb) = (res, w1)" by (simp add: deliver_def)
      moreover have "campaigns (disconnect wb) (data_campaignId job) \<noteq> None"
        using rowb by (simp add: disconnect_def emit_def)
      ultimately show ?thesis by (rule terminalDecision_row)
    qed
  qed
qed

lemma deliver_cause:
  assumes "deliver env job w = (Inl caught, w1)" and "campaigns w (data_campaignId job) \<noteq> None"
  shows "(restoredSession env = None \<longrightarrow> caught = newError ''No Telegram session found for user'')
         \<and> (\<forall>sd e. restoredSession env = Some sd \<and> connectError env = Some e \<longrightarrow> caught = e)"
  using assms startCampaign_cases [of "campaigns w" "data_campaignId job"]
  by (auto simp: deliver_def initialize_def Let_def split: option.splits)

subsection \<open>The outer catch\<close>

text \<open>
  C1, amended: when the body of the handler throws and the campaign row exists (it does
  once \<^verbatim>\<open>startCampaign\<close> has passed), the handler marks the campaign failed with
  the message of the error under the key \<^verbatim>\<open>error\<close>, writes a last snapshot with
  status failed in which \<open>processed\<close> and \<open>total\<close> are the number of recipients,
  \<open>sent\<close> and \<open>failed\<close> are 0 and \<open>skipped\<close> is the number of recipients, and throws
  the same error again. Without a credential that error is the one that says so; when
  the connection fails it is the error of the connection.
\<close>

theorem fatal_error_marks_campaign_failed:
  assumes "deliver env job w = (Inl caught, w1)"
    and "campaigns w (data_campaignId job) \<noteq> None"
  shows "\<exists>w' row. handleBroadcastJob env job w = (Inl caught, w')
           \<and> campaigns w' (data_campaignId job) = Some row
           \<and> row_status row = C_failed
           \<and> row_metadata row ''error'' = Some (JStr (message caught))
           \<and> last (snapshots (trace w')) =
                \<lparr>status = P_failed,
                 progress = progressPercent (length (data_recipients job)) (length (data_recipients job)),
                 processed = length (data_recipients job), total = length (data_recipients job),
                 sent = 0, failed = 0, skipped = length (data_recipients job),
                 error = Some (message caught)\<rparr>
           \<and> (restoredSession env = None \<longrightarrow> caught = newError ''No Telegram session found for user'')
           \<and> (\<forall>sd e. restoredSession env = Some sd \<and> connectError env = Some e \<longrightarrow> caught = e)"
proof -
  from deliver_row [OF assms] obtain row where row: "campaigns w1 (data_campaignId job) = Some row"
    by blast
  have "handleBroadcastJob env job w = onFatalError job caught w1"
    using assms(1) by (simp add: handleBroadcastJob_def)
  then show ?thesis
    using deliver_cause [OF assms]
    by (simp add: onFatalError_def Let_def
                  updateCampaignStatus_present [of "campaigns w1" "data_campaignId job", OF row]
                  updateProgress_frame snapshots_append)
qed


theorem fatal_error_marks_campaign_failed_witness:
  "fst (handleBroadcastJob envNoSession sampleJob sampleWorld)
     = Inl (newError ''No Telegram session found for user'')
   \<and> map_option row_status (campaigns (snd (handleBroadcastJob envNoSession sampleJob sampleWorld)) ''c1'')
       = Some C_failed
   \<and> last (snapshots (trace (snd (handleBroadcastJob envNoSession sampleJob sampleWorld))))
       = \<lparr>status = P_failed, progress = 100, processed = 1, total = 1,
          sent = 0, failed = 0, skipped = 1,
          error = Some ''No Telegram session found for user''\<rparr>"
proof -
  have "fst (deliver envNoSession sampleJob sampleWorld)
          = Inl (newError ''No Telegram session found for user'')"
    by (simp add: deliver_def initialize_def startCampaign_def envNoSession_def sampleEnv_def
                  sampleJob_def sampleWorld_def Let_def)
  then have h1: "deliver envNoSession sampleJob sampleWorld
          = (Inl (newError ''No Telegram session found for user''),
             snd (deliver envNoSession sampleJob sampleWorld))"
    by (metis prod.collapse)
  have h2: "campaigns sampleWorld (data_campaignId sampleJob) \<noteq> None"
    by (simp add: sampleJob_def sampleWorld_def)
  show ?thesis
    using fatal_error_marks_campaign_failed [OF h1 h2]
    by (auto simp: sampleJob_def newError_def progressPercent_full)
qed

text \<open>
  C1, as stated: the last snapshot counts every recipient as failed. Without a stored
  credential and with one recipient, the snapshot counts 0 failed and 1 skipped.
\<close>

theorem fatal_snapshot_failed_counter_counterexample:
  "fst (handleBroadcastJob envNoSession sampleJob sampleWorld)
     = Inl (newError ''No Telegram session found for user'')
   \<and> length (data_recipients sampleJob) = 1
   \<and> failed (last (snapshots (trace (snd (handleBroadcastJob envNoSession sampleJob sampleWorld))))) = 0
   \<and> skipped (last (snapshots (trace (snd (handleBroadcastJob envNoSession sampleJob sampleWorld))))) = 1
   \<and> failed (last (snapshots (trace (snd (handleBroadcastJob envNoSession sampleJob sampleWorld)))))
       \<noteq> length (data_recipients sampleJob)"
  by (simp add: handleBroadcastJob_def onFatalError_def updateCampaignStatus_def updateProgress_def
                emit_def deliver_def initialize_def startCampaign_def envNoSession_def sampleEnv_def
                sampleJob_def sampleWorld_def newError_def Let_def)

subsection \<open>The retry flag and the terminal decision\<close>

lemma onSendError_retry:
  assumes "onSendError env job i r c v w = (Inr v', w')" and "retryFlagSet v"
  shows "retryFlagSet v'"
  using assms
  by (auto simp: onSendError_def retryFlagSet_def Let_def split: if_splits sum.splits option.splits)

lemma processRecipient_retry:
  assumes "processRecipient env job r v w = (Inr v', w')" and "retryFlagSet v"
  shows "retryFlagSet v'"
proof -
  have a: "retryFlagSet (v\<lparr>n_processed := n_processed v + 1\<rparr>)"
    using assms(2) by (simp add: retryFlagSet_def)
  have b: "retryFlagSet (v\<lparr>n_processed := n_processed v + 1,
              antiSpam := recordSuccess (antiSpam v), n_sent := n_sent v + 1\<rparr>)"
    using assms(2) by (simp add: retryFlagSet_def)
  show ?thesis
    using assms(1) a b
    by (auto simp: processRecipient_def Let_def split: option.splits sum.splits prod.splits
             dest: onSendError_retry)
qed

lemma sendAll_retry:
  "sendAll env job rs v w = (Inr v', w') \<Longrightarrow> retryFlagSet v \<Longrightarrow> retryFlagSet v'"
proof (induction rs arbitrary: v w)
  case Nil
  then show ?case by simp
next
  case (Cons r rs)
  obtain res1 w1 where step: "processRecipient env job r v w = (res1, w1)"
    by (cases "processRecipient env job r v w")
  show ?case
  proof (cases res1)
    case (Inl e)
    with Cons.prems step show ?thesis by simp
  next
    case (Inr v1)
    with Cons.prems step have rest: "sendAll env job rs v1 w1 = (Inr v', w')" by simp
    have "retryFlagSet v1" using processRecipient_retry step Inr Cons.prems(2) by blast
    with Cons.IH rest show ?thesis by blast
  qed
qed

lemma runFailureRate_high: "runFailureRate v > 1 / 2 \<Longrightarrow> n_failed v > 0"
  by (cases "n_failed v = 0") (auto simp: runFailureRate_def binary64_def split: if_splits)


text \<open>
  C2: for a run whose loop processes every recipient, with the failure rate
  \<open>failed / (sent + failed)\<close> (0 without any) as the code computes it: above one half
  the campaign is marked failed, its metadata holds the three counters and the rate (as
  the percentage \<^verbatim>\<open>Math.round(failureRate * 100)\<close>), a snapshot with status failed
  and progress 100 carries the counters, the last snapshot is failed at progress 100,
  and the handler throws to the queue; at one half or below the campaign is marked
  completed and the handler returns with success. By \<open>runFailureRate_above_half\<close> the
  rate is above one half exactly when more recipients failed than were sent.
\<close>

theorem failure_rate_threshold_decides:
  assumes "initialize env job w = (Inr v0, w1)"
    and "sendAll env job (data_recipients job) v0 w1 = (Inr v, w2)"
  shows "(runFailureRate v > 0.5 \<longrightarrow>
            (\<exists>w' row.
               handleBroadcastJob env job w
                 = (Inl (newError ''Broadcast failed with retryable errors; will retry''), w')
               \<and> campaigns w' (data_campaignId job) = Some row
               \<and> row_status row = C_failed
               \<and> row_metadata row ''sent'' = Some (JNum (int (n_sent v)))
               \<and> row_metadata row ''failed'' = Some (JNum (int (n_failed v)))
               \<and> row_metadata row ''skipped'' = Some (JNum (int (n_skipped v)))
               \<and> row_metadata row ''failureRate'' = Some (JNum (round (binary64 (runFailureRate v * 100))))
               \<and> SaveProgress (data_campaignId job)
                    \<lparr>status = P_failed, progress = 100,
                     processed = length (data_recipients job),
                     total = length (data_recipients job),
                     sent = n_sent v, failed = n_failed v, skipped = n_skipped v,
                     error = Some (''Failed: '' @ numberToString env (binary64 (runFailureRate v * 100))
                                     @ ''% failure rate'')\<rparr>
                   \<in> set (trace w')
               \<and> status (last (snapshots (trace w'))) = P_failed
               \<and> progress (last (snapshots (trace w'))) = 100))
         \<and> (runFailureRate v \<le> 0.5 \<longrightarrow>
            (\<exists>w' row.
               handleBroadcastJob env job w
                 = (Inr \<lparr>r_campaignId = data_campaignId job, r_sent = n_sent v,
                         r_failed = n_failed v, r_skipped = n_skipped v, success = True\<rparr>, w')
               \<and> campaigns w' (data_campaignId job) = Some row
               \<and> row_status row = C_completed
               \<and> status (last (snapshots (trace w'))) = P_completed))"
proof -
  note ok = initialize_ok [OF assms(1)]
  have "campaigns w2 (data_campaignId job) \<noteq> None"
    using sendAll_frame [OF assms(2)] ok by simp
  then obtain row2 where row2: "campaigns (disconnect w2) (data_campaignId job) = Some row2"
    by (auto simp: disconnect_def emit_def)
  note upd = updateCampaignStatus_present [of "campaigns (disconnect w2)" "data_campaignId job", OF row2]
  have del: "deliver env job w = terminalDecision env job v (disconnect w2)"
    using assms by (simp add: deliver_def)
  have flag: "retryFlagSet v"
    using sendAll_retry [OF assms(2)] ok by (simp add: retryFlagSet_def)
  show ?thesis
  proof (intro conjI impI)
    assume high: "runFailureRate v > 0.5"
    then have f: "n_failed v > 0" using runFailureRate_high [of v] by simp
    with flag have retry: "shouldRetry v" by (simp add: retryFlagSet_def)
    have "data_recipients job \<noteq> []"
    proof
      assume "data_recipients job = []"
      with assms(2) have "v = v0" by simp
      with ok f show False by simp
    qed
    then have pct: "progressPercent (length (data_recipients job)) (length (data_recipients job)) = 100"
      by (simp add: progressPercent_full)
    let ?patch = "[''sent'' \<mapsto> JNum (int (n_sent v)),
                   ''failed'' \<mapsto> JNum (int (n_failed v)),
                   ''skipped'' \<mapsto> JNum (int (n_skipped v)),
                   ''failureRate'' \<mapsto> JNum (round (binary64 (runFailureRate v * 100))),
                   ''error'' \<mapsto> JStr ''High failure rate threshold exceeded'']"
    let ?row3 = "row2\<lparr>row_status := C_failed, last_sent_at := Some (finishedAt env),
                       row_metadata := row_metadata row2 ++ ?patch\<rparr>"
    let ?w3 = "updateProgress (data_campaignId job) P_failed
                 (length (data_recipients job)) (length (data_recipients job))
                 (n_sent v) (n_failed v) (n_skipped v)
                 (Some (''Failed: '' @ numberToString env (binary64 (runFailureRate v * 100)) @ ''% failure rate''))
                 ((disconnect w2)\<lparr>campaigns := (campaigns (disconnect w2))(data_campaignId job \<mapsto> ?row3)\<rparr>)"
    have td: "terminalDecision env job v (disconnect w2)
                = (Inl (newError ''Broadcast failed with retryable errors; will retry''), ?w3)"
      using high retry by (simp add: terminalDecision_def failureThreshold_def Let_def upd)
    have row3: "campaigns ?w3 (data_campaignId job) = Some ?row3"
      by (simp add: updateProgress_frame)
    have h: "handleBroadcastJob env job w
               = onFatalError job (newError ''Broadcast failed with retryable errors; will retry'') ?w3"
      by (simp add: handleBroadcastJob_def del td)
    show "\<exists>w' row.
               handleBroadcastJob env job w
                 = (Inl (newError ''Broadcast failed with retryable errors; will retry''), w')
               \<and> campaigns w' (data_campaignId job) = Some row
               \<and> row_status row = C_failed
               \<and> row_metadata row ''sent'' = Some (JNum (int (n_sent v)))
               \<and> row_metadata row ''failed'' = Some (JNum (int (n_failed v)))
               \<and> row_metadata row ''skipped'' = Some (JNum (int (n_skipped v)))
               \<and> row_metadata row ''failureRate'' = Some (JNum (round (binary64 (runFailureRate v * 100))))
               \<and> SaveProgress (data_campaignId job)
                    \<lparr>status = P_failed, progress = 100,
                     processed = length (data_recipients job),
                     total = length (data_recipients job),
                     sent = n_sent v, failed = n_failed v, skipped = n_skipped v,
                     error = Some (''Failed: '' @ numberToString env (binary64 (runFailureRate v * 100))
                                     @ ''% failure rate'')\<rparr>
                   \<in> set (trace w')
               \<and> status (last (snapshots (trace w'))) = P_failed
               \<and> progress (last (snapshots (trace w'))) = 100"
      unfolding h onFatalError_def Let_def
        updateCampaignStatus_present [of "campaigns ?w3" "data_campaignId job", OF row3]
      by (simp add: updateProgress_frame snapshots_append pct map_add_def)
  next
    assume low: "runFailureRate v \<le> 0.5"
    show "\<exists>w' row.
               handleBroadcastJob env job w
                 = (Inr \<lparr>r_campaignId = data_campaignId job, r_sent = n_sent v,
                         r_failed = n_failed v, r_skipped = n_skipped v, success = True\<rparr>, w')
               \<and> campaigns w' (data_campaignId job) = Some row
               \<and> row_status row = C_completed
               \<and> status (last (snapshots (trace w'))) = P_completed"
      using low
      by (simp add: handleBroadcastJob_def del terminalDecision_def failureThreshold_def Let_def upd
                    updateProgress_frame emit_def snapshots_append)
  qed
qed


lemmas run_defs =
  initialize_def startCampaign_def updateProgress_def emit_def processRecipient_def
  onSendError_def logBroadcastOutcome_def newAntiSpamService_def recordSuccess_def
  recordFailure_def sendFailure_def newError_def classifyTelegramError_def errorText_def
  accountAgeDays_def Let_def

theorem failure_rate_threshold_decides_witness:
  "fst (handleBroadcastJob envAllFail sampleJob sampleWorld)
     = Inl (newError ''Broadcast failed with retryable errors; will retry'')
   \<and> map_option row_status (campaigns (snd (handleBroadcastJob envAllFail sampleJob sampleWorld)) ''c1'')
       = Some C_failed
   \<and> fst (handleBroadcastJob envSecondFails twoRecipientJob sampleWorld)
       = Inr \<lparr>r_campaignId = ''c1'', r_sent = 1, r_failed = 1, r_skipped = 0, success = True\<rparr>
   \<and> map_option row_status
        (campaigns (snd (handleBroadcastJob envSecondFails twoRecipientJob sampleWorld)) ''c1'')
       = Some C_completed"
proof -
  let ?v0 = "\<lparr>n_processed = 0, n_sent = 0, n_failed = 0, n_skipped = 0, shouldRetry = False,
              antiSpam = \<lparr>config = \<lparr>accountAge = Some 0\<rparr>, failureCount = 0, successCount = 0\<rparr>\<rparr>"
  let ?va = "\<lparr>n_processed = 1, n_sent = 0, n_failed = 1, n_skipped = 0, shouldRetry = True,
              antiSpam = \<lparr>config = \<lparr>accountAge = Some 0\<rparr>, failureCount = 1, successCount = 0\<rparr>\<rparr>"
  let ?vb = "\<lparr>n_processed = 2, n_sent = 1, n_failed = 1, n_skipped = 0, shouldRetry = True,
              antiSpam = \<lparr>config = \<lparr>accountAge = Some 0\<rparr>, failureCount = 1, successCount = 1\<rparr>\<rparr>"
  have "fst (initialize envAllFail sampleJob sampleWorld) = Inr ?v0"
    by (simp add: run_defs envAllFail_def sampleEnv_def sampleJob_def sampleWorld_def)
  then have ia: "initialize envAllFail sampleJob sampleWorld
                   = (Inr ?v0, snd (initialize envAllFail sampleJob sampleWorld))"
    by (metis prod.collapse)
  have "fst (sendAll envAllFail sampleJob (data_recipients sampleJob) ?v0
               (snd (initialize envAllFail sampleJob sampleWorld))) = Inr ?va"
    by (simp add: run_defs envAllFail_def sampleEnv_def sampleJob_def sampleWorld_def)
  then have la: "sendAll envAllFail sampleJob (data_recipients sampleJob) ?v0
                   (snd (initialize envAllFail sampleJob sampleWorld))
                 = (Inr ?va, snd (sendAll envAllFail sampleJob (data_recipients sampleJob) ?v0
                                    (snd (initialize envAllFail sampleJob sampleWorld))))"
    by (metis prod.collapse)
  have "fst (initialize envSecondFails twoRecipientJob sampleWorld) = Inr ?v0"
    by (simp add: run_defs envSecondFails_def twoRecipientJob_def sampleEnv_def sampleJob_def
                  sampleWorld_def)
  then have ib: "initialize envSecondFails twoRecipientJob sampleWorld
                   = (Inr ?v0, snd (initialize envSecondFails twoRecipientJob sampleWorld))"
    by (metis prod.collapse)
  have "fst (sendAll envSecondFails twoRecipientJob (data_recipients twoRecipientJob) ?v0
               (snd (initialize envSecondFails twoRecipientJob sampleWorld))) = Inr ?vb"
    by (simp add: run_defs envSecondFails_def twoRecipientJob_def sampleEnv_def sampleJob_def
                  sampleWorld_def)
  then have lb: "sendAll envSecondFails twoRecipientJob (data_recipients twoRecipientJob) ?v0
                   (snd (initialize envSecondFails twoRecipientJob sampleWorld))
                 = (Inr ?vb, snd (sendAll envSecondFails twoRecipientJob
                                    (data_recipients twoRecipientJob) ?v0
                                    (snd (initialize envSecondFails twoRecipientJob sampleWorld))))"
    by (metis prod.collapse)
  have ra: "runFailureRate ?va > 0.5" by (simp add: runFailureRate_def binary64_one)
  have rb: "runFailureRate ?vb \<le> 0.5" by (simp add: runFailureRate_def binary64_half)
  show ?thesis
    using failure_rate_threshold_decides [OF ia la] failure_rate_threshold_decides [OF ib lb] ra rb
    by (auto simp: sampleJob_def twoRecipientJob_def)
qed

subsection \<open>One iteration of the loop\<close>

lemma classify_not_flood_wait:
  assumes "\<not> includes_str (errorText err) ''FLOOD_WAIT''"
  shows "type (classifyTelegramError err) \<noteq> FLOOD_WAIT \<and> \<not> isFloodWait (classifyTelegramError err)"
  using assms by (simp add: classifyTelegramError_def Let_def)

lemma classify_flood_type:
  "type (classifyTelegramError err) = FLOOD_WAIT \<longleftrightarrow> includes_str (errorText err) ''FLOOD_WAIT''"
  by (simp add: classifyTelegramError_def Let_def)

lemma isFloodWait_type:
  "isFloodWait (classifyTelegramError err) \<longleftrightarrow> type (classifyTelegramError err) = FLOOD_WAIT"
  by (simp add: classifyTelegramError_def Let_def)

lemma flood_not_permanent:
  "type (classifyTelegramError err) = FLOOD_WAIT \<Longrightarrow> \<not> isPermanent (classifyTelegramError err)"
  by (simp add: classifyTelegramError_def Let_def split: if_splits)

lemma flood_seconds:
  "type (classifyTelegramError err) = FLOOD_WAIT \<Longrightarrow>
     floodWaitSeconds (classifyTelegramError err) = Some (parsedWaitSeconds (errorText err))"
  by (simp add: classify_flood_type classify_flood_wait)

text \<open>The catch block on a permanent error.\<close>

lemma onSendError_permanent:
  assumes "isPermanent (classifyTelegramError c)"
  shows "(\<exists>e. logError env i O_skipped = Some e \<and> onSendError env job i r c v w = (Inl e, w))
       \<or> (\<exists>entry w'. logError env i O_skipped = None
             \<and> onSendError env job i r c v w = (Inr (v\<lparr>n_skipped := n_skipped v + 1\<rparr>), w')
             \<and> broadcast_logs w' = broadcast_logs w @ [entry]
             \<and> log_status entry = O_skipped \<and> log_recipient entry = r
             \<and> trace w' = trace w)"
  using assms
  by (cases "logError env i O_skipped")
     (simp_all add: onSendError_def logBroadcastOutcome_def Let_def)

lemma onSendError_transient:
  assumes "\<not> isPermanent (classifyTelegramError c)"
  shows "(\<exists>e. logError env i O_failed = Some e \<and> onSendError env job i r c v w = (Inl e, w))
       \<or> (\<exists>entry w'. logError env i O_failed = None
             \<and> onSendError env job i r c v w
                 = (Inr (v\<lparr>n_failed := n_failed v + 1, shouldRetry := True,
                           antiSpam := recordFailure (antiSpam v)\<rparr>), w')
             \<and> broadcast_logs w' = broadcast_logs w @ [entry]
             \<and> log_status entry = O_failed \<and> log_recipient entry = r
             \<and> (type (classifyTelegramError c) = FLOOD_WAIT \<longrightarrow>
                  floodWaitMs (trace w') = floodWaitMs (trace w) + parsedWaitSeconds (errorText c) * 1000)
             \<and> (type (classifyTelegramError c) \<noteq> FLOOD_WAIT \<longrightarrow>
                  floodWaitMs (trace w') = floodWaitMs (trace w)))"
proof (cases "logError env i O_failed")
  case (Some e)
  with assms show ?thesis
    by (simp add: onSendError_def logBroadcastOutcome_def Let_def)
next
  case None
  show ?thesis
  proof (cases "type (classifyTelegramError c) = FLOOD_WAIT")
    case True
    note sec = flood_seconds [OF True]
    have fw: "isFloodWait (classifyTelegramError c)" using True by (simp add: isFloodWait_type)
    show ?thesis
      using assms None True
      by (simp add: onSendError_def logBroadcastOutcome_def Let_def sec fw emit_def floodWaitMs_append)
  next
    case False
    then have fw: "\<not> isFloodWait (classifyTelegramError c)" by (simp add: isFloodWait_type)
    show ?thesis
      using assms None False
      by (simp add: onSendError_def logBroadcastOutcome_def Let_def fw emit_def
               split: option.splits)
  qed
qed


lemma processRecipient_caught:
  assumes "caughtError env r (n_processed v) = Some c"
  shows "\<exists>v0 w0. n_processed v0 = n_processed v + 1 \<and> n_failed v0 = n_failed v
           \<and> n_skipped v0 = n_skipped v
           \<and> failureCount (antiSpam v0) = failureCount (antiSpam v)
           \<and> config (antiSpam v0) = config (antiSpam v)
           \<and> (sendError env (n_processed v) \<noteq> None
                  \<longrightarrow> n_sent v0 = n_sent v \<and> antiSpam v0 = antiSpam v)
           \<and> (sendError env (n_processed v) = None \<longrightarrow> n_sent v0 = n_sent v + 1)
           \<and> broadcast_logs w0 = broadcast_logs w
           \<and> floodWaitMs (trace w0) = floodWaitMs (trace w)
           \<and> processRecipient env job r v w =
               (case onSendError env job (n_processed v) r c v0 w0 of
                  (Inl e, w') \<Rightarrow> (Inl e, w')
                | (Inr v', w') \<Rightarrow>
                    (Inr v',
                     updateProgress (data_campaignId job) P_sending (n_processed v')
                       (length (data_recipients job)) (n_sent v') (n_failed v') (n_skipped v')
                       None w'))"
proof (cases "sendError env (n_processed v)")
  case (Some msg)
  with assms have c: "c = sendFailure r msg" by (simp add: caughtError_def)
  show ?thesis
    apply (rule exI [of _ "v\<lparr>n_processed := n_processed v + 1\<rparr>"])
    apply (rule exI [of _ "emit [PacingDelay (calculateDelay (mathRandom env (n_processed v)) False (antiSpam v)), SendAttempt r] w"])
    apply (simp add: processRecipient_def Let_def Some c emit_def floodWaitMs_append)
    done
next
  case None
  with assms have l: "logError env (n_processed v) O_sent = Some c" by (simp add: caughtError_def)
  show ?thesis
    apply (rule exI [of _ "v\<lparr>n_processed := n_processed v + 1,
                              antiSpam := recordSuccess (antiSpam v), n_sent := n_sent v + 1\<rparr>"])
    apply (rule exI [of _ "emit [PacingDelay (calculateDelay (mathRandom env (n_processed v)) False (antiSpam v)), SendAttempt r] w"])
    apply (simp add: processRecipient_def Let_def None l emit_def floodWaitMs_append
                     logBroadcastOutcome_def recordSuccess_def)
    done
qed

lemma processRecipient_clean:
  assumes "caughtError env r (n_processed v) = None"
  shows "\<exists>w'. processRecipient env job r v w =
           (Inr (v\<lparr>n_processed := n_processed v + 1,
                     antiSpam := recordSuccess (antiSpam v), n_sent := n_sent v + 1\<rparr>), w')"
  using assms
  by (auto simp: caughtError_def processRecipient_def Let_def logBroadcastOutcome_def
           split: option.splits)


lemma runFailureRate_cong:
  "n_sent a = n_sent b \<Longrightarrow> n_failed a = n_failed b \<Longrightarrow> runFailureRate a = runFailureRate b"
  by (simp add: runFailureRate_def)

text \<open>One step of the loop whose caught error is permanent.\<close>

lemma processRecipient_permanent:
  assumes c: "caughtError env r (n_processed v) = Some c"
    and perm: "isPermanent (classifyTelegramError c)"
  shows "(\<exists>e w'. processRecipient env job r v w = (Inl e, w')
            \<and> logError env (n_processed v) O_skipped = Some e
            \<and> broadcast_logs w' = broadcast_logs w)
       \<or> (\<exists>v' w' entry. processRecipient env job r v w = (Inr v', w')
            \<and> n_processed v' = n_processed v + 1
            \<and> n_skipped v' = n_skipped v + 1 \<and> n_failed v' = n_failed v
            \<and> failureCount (antiSpam v') = failureCount (antiSpam v)
            \<and> (sendError env (n_processed v) \<noteq> None
                  \<longrightarrow> n_sent v' = n_sent v \<and> antiSpam v' = antiSpam v)
            \<and> broadcast_logs w' = broadcast_logs w @ [entry]
            \<and> log_status entry = O_skipped \<and> log_recipient entry = r
            \<and> floodWaitMs (trace w') = floodWaitMs (trace w))"
proof -
  from processRecipient_caught [OF c, where job = job and w = w] obtain v0 w0 where
    v0: "n_processed v0 = n_processed v + 1" "n_failed v0 = n_failed v" "n_skipped v0 = n_skipped v"
        "failureCount (antiSpam v0) = failureCount (antiSpam v)"
        "sendError env (n_processed v) \<noteq> None \<longrightarrow> n_sent v0 = n_sent v \<and> antiSpam v0 = antiSpam v"
    and w0: "broadcast_logs w0 = broadcast_logs w" "floodWaitMs (trace w0) = floodWaitMs (trace w)"
    and step: "processRecipient env job r v w =
               (case onSendError env job (n_processed v) r c v0 w0 of
                  (Inl e, w') \<Rightarrow> (Inl e, w')
                | (Inr v', w') \<Rightarrow>
                    (Inr v',
                     updateProgress (data_campaignId job) P_sending (n_processed v')
                       (length (data_recipients job)) (n_sent v') (n_failed v') (n_skipped v')
                       None w'))"
    by blast
  from onSendError_permanent [OF perm, where env = env and i = "n_processed v" and job = job and r = r and v = v0 and w = w0]
  show ?thesis
  proof (elim disjE exE conjE)
    fix e assume "logError env (n_processed v) O_skipped = Some e"
      "onSendError env job (n_processed v) r c v0 w0 = (Inl e, w0)"
    then show ?thesis using step w0 by simp
  next
    fix entry w'
    assume "onSendError env job (n_processed v) r c v0 w0 = (Inr (v0\<lparr>n_skipped := n_skipped v0 + 1\<rparr>), w')"
      "broadcast_logs w' = broadcast_logs w0 @ [entry]" "log_status entry = O_skipped"
      "log_recipient entry = r" "trace w' = trace w0"
    then show ?thesis
      using step v0 w0
      by (simp add: updateProgress_frame floodWaitMs_append)
  qed
qed

lemma processRecipient_transient:
  assumes c: "caughtError env r (n_processed v) = Some c"
    and perm: "\<not> isPermanent (classifyTelegramError c)"
  shows "(\<exists>e w'. processRecipient env job r v w = (Inl e, w')
            \<and> logError env (n_processed v) O_failed = Some e
            \<and> broadcast_logs w' = broadcast_logs w)
       \<or> (\<exists>v' w' entry. processRecipient env job r v w = (Inr v', w')
            \<and> n_processed v' = n_processed v + 1
            \<and> n_failed v' = n_failed v + 1 \<and> n_skipped v' = n_skipped v
            \<and> failureCount (antiSpam v') = failureCount (antiSpam v) + 1
            \<and> (sendError env (n_processed v) \<noteq> None
                  \<longrightarrow> n_sent v' = n_sent v \<and> antiSpam v' = recordFailure (antiSpam v))
            \<and> (sendError env (n_processed v) = None \<longrightarrow> n_sent v' = n_sent v + 1)
            \<and> broadcast_logs w' = broadcast_logs w @ [entry]
            \<and> log_status entry = O_failed \<and> log_recipient entry = r
            \<and> (type (classifyTelegramError c) = FLOOD_WAIT \<longrightarrow>
                  floodWaitMs (trace w')
                    = floodWaitMs (trace w) + parsedWaitSeconds (errorText c) * 1000)
            \<and> (type (classifyTelegramError c) \<noteq> FLOOD_WAIT \<longrightarrow>
                  floodWaitMs (trace w') = floodWaitMs (trace w)))"
proof -
  from processRecipient_caught [OF c, where job = job and w = w] obtain v0 w0 where
    v0: "n_processed v0 = n_processed v + 1" "n_failed v0 = n_failed v" "n_skipped v0 = n_skipped v"
        "failureCount (antiSpam v0) = failureCount (antiSpam v)"
        "sendError env (n_processed v) \<noteq> None \<longrightarrow> n_sent v0 = n_sent v \<and> antiSpam v0 = antiSpam v"
        "sendError env (n_processed v) = None \<longrightarrow> n_sent v0 = n_sent v + 1"
    and w0: "broadcast_logs w0 = broadcast_logs w" "floodWaitMs (trace w0) = floodWaitMs (trace w)"
    and step: "processRecipient env job r v w =
               (case onSendError env job (n_processed v) r c v0 w0 of
                  (Inl e, w') \<Rightarrow> (Inl e, w')
                | (Inr v', w') \<Rightarrow>
                    (Inr v',
                     updateProgress (data_campaignId job) P_sending (n_processed v')
                       (length (data_recipients job)) (n_sent v') (n_failed v') (n_skipped v')
                       None w'))"
    by (elim exE conjE) (rule that, assumption+)
  from onSendError_transient [OF perm, where env = env and i = "n_processed v" and job = job and r = r and v = v0 and w = w0]
  show ?thesis
  proof (elim disjE exE conjE)
    fix e assume "logError env (n_processed v) O_failed = Some e"
      "onSendError env job (n_processed v) r c v0 w0 = (Inl e, w0)"
    then show ?thesis using step w0 by simp
  next
    fix entry w'
    assume "onSendError env job (n_processed v) r c v0 w0
              = (Inr (v0\<lparr>n_failed := n_failed v0 + 1, shouldRetry := True,
                         antiSpam := recordFailure (antiSpam v0)\<rparr>), w')"
      "broadcast_logs w' = broadcast_logs w0 @ [entry]" "log_status entry = O_failed"
      "log_recipient entry = r"
      "type (classifyTelegramError c) = FLOOD_WAIT \<longrightarrow>
         floodWaitMs (trace w') = floodWaitMs (trace w0) + parsedWaitSeconds (errorText c) * 1000"
      "type (classifyTelegramError c) \<noteq> FLOOD_WAIT \<longrightarrow> floodWaitMs (trace w') = floodWaitMs (trace w0)"
    then show ?thesis
      using step v0 w0
      by (simp add: updateProgress_frame floodWaitMs_append recordFailure_def)
  qed
qed

text \<open>
  C3: in one iteration of the loop whose send fails, (1) if the error is permanent, the
  logged outcome is \<open>skipped\<close>, \<open>skipped\<close> grows by one, \<open>sent\<close>, \<open>failed\<close>, the
  pacing controller and the failure rate of the run are unchanged and nothing is slept;
  (2) otherwise the logged outcome is \<open>failed\<close>, \<open>failed\<close> grows by one, the pacing
  controller records a failure, and a throttle signal adds a sleep of the parsed seconds
  (no other error sleeps); in both cases the iteration may instead end the attempt,
  when the insert of that outcome throws, without any outcome logged. (3) In every
  iteration, \<open>failed\<close> or the failure count of the pacing controller changes only if
  the caught error is not permanent.
\<close>

theorem permanent_skipped_transient_failed:
  "(\<forall>msg. sendError env (n_processed v) = Some msg
           \<and> isPermanent (classifyTelegramError (sendFailure recipient msg)) \<longrightarrow>
       (\<exists>e w'. processRecipient env job recipient v w = (Inl e, w')
           \<and> logError env (n_processed v) O_skipped = Some e
           \<and> broadcast_logs w' = broadcast_logs w)
     \<or> (\<exists>v' w' entry. processRecipient env job recipient v w = (Inr v', w')
           \<and> n_skipped v' = n_skipped v + 1 \<and> n_failed v' = n_failed v \<and> n_sent v' = n_sent v
           \<and> antiSpam v' = antiSpam v \<and> runFailureRate v' = runFailureRate v
           \<and> broadcast_logs w' = broadcast_logs w @ [entry]
           \<and> log_status entry = O_skipped \<and> log_recipient entry = recipient
           \<and> floodWaitMs (trace w') = floodWaitMs (trace w)))
   \<and> (\<forall>msg. sendError env (n_processed v) = Some msg
           \<and> \<not> isPermanent (classifyTelegramError (sendFailure recipient msg)) \<longrightarrow>
       (\<exists>e w'. processRecipient env job recipient v w = (Inl e, w')
           \<and> logError env (n_processed v) O_failed = Some e
           \<and> broadcast_logs w' = broadcast_logs w)
     \<or> (\<exists>v' w' entry. processRecipient env job recipient v w = (Inr v', w')
           \<and> n_failed v' = n_failed v + 1 \<and> n_skipped v' = n_skipped v \<and> n_sent v' = n_sent v
           \<and> antiSpam v' = recordFailure (antiSpam v)
           \<and> broadcast_logs w' = broadcast_logs w @ [entry]
           \<and> log_status entry = O_failed \<and> log_recipient entry = recipient
           \<and> (type (classifyTelegramError (sendFailure recipient msg)) = FLOOD_WAIT \<longrightarrow>
                 floodWaitMs (trace w')
                   = floodWaitMs (trace w)
                     + parsedWaitSeconds (errorText (sendFailure recipient msg)) * 1000)
           \<and> (type (classifyTelegramError (sendFailure recipient msg)) \<noteq> FLOOD_WAIT \<longrightarrow>
                 floodWaitMs (trace w') = floodWaitMs (trace w))))
   \<and> (\<forall>v' w'. processRecipient env job recipient v w = (Inr v', w')
           \<and> (n_failed v' \<noteq> n_failed v
                \<or> failureCount (antiSpam v') \<noteq> failureCount (antiSpam v)) \<longrightarrow>
         (\<exists>c. caughtError env recipient (n_processed v) = Some c
              \<and> \<not> isPermanent (classifyTelegramError c)))"
proof (intro conjI allI impI)
  fix msg
  assume h: "sendError env (n_processed v) = Some msg
             \<and> isPermanent (classifyTelegramError (sendFailure recipient msg))"
  then have c: "caughtError env recipient (n_processed v) = Some (sendFailure recipient msg)"
    by (simp add: caughtError_def)
  from h have s: "sendError env (n_processed v) \<noteq> None" by simp
  from h have p: "isPermanent (classifyTelegramError (sendFailure recipient msg))" by simp
  from processRecipient_permanent [OF c p, where job = job and w = w]
  show "(\<exists>e w'. processRecipient env job recipient v w = (Inl e, w')
           \<and> logError env (n_processed v) O_skipped = Some e
           \<and> broadcast_logs w' = broadcast_logs w)
     \<or> (\<exists>v' w' entry. processRecipient env job recipient v w = (Inr v', w')
           \<and> n_skipped v' = n_skipped v + 1 \<and> n_failed v' = n_failed v \<and> n_sent v' = n_sent v
           \<and> antiSpam v' = antiSpam v \<and> runFailureRate v' = runFailureRate v
           \<and> broadcast_logs w' = broadcast_logs w @ [entry]
           \<and> log_status entry = O_skipped \<and> log_recipient entry = recipient
           \<and> floodWaitMs (trace w') = floodWaitMs (trace w))"
  proof (elim disjE exE conjE)
    fix e w'
    assume "processRecipient env job recipient v w = (Inl e, w')"
      "logError env (n_processed v) O_skipped = Some e" "broadcast_logs w' = broadcast_logs w"
    then show ?thesis by simp
  next
    fix v' w' entry
    assume a: "processRecipient env job recipient v w = (Inr v', w')"
      "n_skipped v' = n_skipped v + 1" "n_failed v' = n_failed v"
      "sendError env (n_processed v) \<noteq> None \<longrightarrow> n_sent v' = n_sent v \<and> antiSpam v' = antiSpam v"
      "broadcast_logs w' = broadcast_logs w @ [entry]" "log_status entry = O_skipped"
      "log_recipient entry = recipient" "floodWaitMs (trace w') = floodWaitMs (trace w)"
    from a(4) s have b: "n_sent v' = n_sent v" "antiSpam v' = antiSpam v" by simp_all
    have "runFailureRate v' = runFailureRate v" using a(3) b(1) by (simp add: runFailureRate_def)
    then show ?thesis using a b by simp
  qed
next
  fix msg
  assume h: "sendError env (n_processed v) = Some msg
             \<and> \<not> isPermanent (classifyTelegramError (sendFailure recipient msg))"
  then have c: "caughtError env recipient (n_processed v) = Some (sendFailure recipient msg)"
    by (simp add: caughtError_def)
  from h have s: "sendError env (n_processed v) \<noteq> None" by simp
  from h have p: "\<not> isPermanent (classifyTelegramError (sendFailure recipient msg))" by simp
  from processRecipient_transient [OF c p, where job = job and w = w]
  show "(\<exists>e w'. processRecipient env job recipient v w = (Inl e, w')
           \<and> logError env (n_processed v) O_failed = Some e
           \<and> broadcast_logs w' = broadcast_logs w)
     \<or> (\<exists>v' w' entry. processRecipient env job recipient v w = (Inr v', w')
           \<and> n_failed v' = n_failed v + 1 \<and> n_skipped v' = n_skipped v \<and> n_sent v' = n_sent v
           \<and> antiSpam v' = recordFailure (antiSpam v)
           \<and> broadcast_logs w' = broadcast_logs w @ [entry]
           \<and> log_status entry = O_failed \<and> log_recipient entry = recipient
           \<and> (type (classifyTelegramError (sendFailure recipient msg)) = FLOOD_WAIT \<longrightarrow>
                 floodWaitMs (trace w')
                   = floodWaitMs (trace w)
                     + parsedWaitSeconds (errorText (sendFailure recipient msg)) * 1000)
           \<and> (type (classifyTelegramError (sendFailure recipient msg)) \<noteq> FLOOD_WAIT \<longrightarrow>
                 floodWaitMs (trace w') = floodWaitMs (trace w)))"
  proof (elim disjE exE conjE)
    fix e w'
    assume "processRecipient env job recipient v w = (Inl e, w')"
      "logError env (n_processed v) O_failed = Some e" "broadcast_logs w' = broadcast_logs w"
    then show ?thesis by simp
  next
    fix v' w' entry
    assume a: "processRecipient env job recipient v w = (Inr v', w')"
      "n_failed v' = n_failed v + 1" "n_skipped v' = n_skipped v"
      "sendError env (n_processed v) \<noteq> None
         \<longrightarrow> n_sent v' = n_sent v \<and> antiSpam v' = recordFailure (antiSpam v)"
      "broadcast_logs w' = broadcast_logs w @ [entry]" "log_status entry = O_failed"
      "log_recipient entry = recipient"
      "type (classifyTelegramError (sendFailure recipient msg)) = FLOOD_WAIT \<longrightarrow>
         floodWaitMs (trace w')
           = floodWaitMs (trace w) + parsedWaitSeconds (errorText (sendFailure recipient msg)) * 1000"
      "type (classifyTelegramError (sendFailure recipient msg)) \<noteq> FLOOD_WAIT \<longrightarrow>
         floodWaitMs (trace w') = floodWaitMs (trace w)"
    from a(4) s have b: "n_sent v' = n_sent v" "antiSpam v' = recordFailure (antiSpam v)"
      by simp_all
    show ?thesis using a b by simp
  qed
next
  fix v' w'
  assume h: "processRecipient env job recipient v w = (Inr v', w')
             \<and> (n_failed v' \<noteq> n_failed v
                  \<or> failureCount (antiSpam v') \<noteq> failureCount (antiSpam v))"
  show "\<exists>c. caughtError env recipient (n_processed v) = Some c
             \<and> \<not> isPermanent (classifyTelegramError c)"
  proof (cases "caughtError env recipient (n_processed v)")
    case None
    from processRecipient_clean [OF None, where job = job and w = w] h
    show ?thesis by (auto simp: recordSuccess_def)
  next
    case (Some c)
    have "\<not> isPermanent (classifyTelegramError c)"
    proof
      assume "isPermanent (classifyTelegramError c)"
      from processRecipient_permanent [OF Some this, where job = job and w = w] h
      show False by auto
    qed
    with Some show ?thesis by simp
  qed
qed


theorem permanent_skipped_transient_failed_witness:
  "sendError envPeerInvalid (n_processed sampleVars) = Some ''PEER_ID_INVALID''
   \<and> isPermanent (classifyTelegramError (sendFailure ''@a'' ''PEER_ID_INVALID''))
   \<and> map log_status
        (broadcast_logs (snd (processRecipient envPeerInvalid sampleJob ''@a'' sampleVars sampleWorld)))
       = [O_skipped]
   \<and> map_sum message (\<lambda>v'. (n_sent v', n_failed v', n_skipped v', failureCount (antiSpam v')))
        (fst (processRecipient envPeerInvalid sampleJob ''@a'' sampleVars sampleWorld))
       = Inr (0, 0, 1, 0)
   \<and> sendError envFloodWait7 (n_processed sampleVars)
       = Some ''A wait of 7 seconds is required (caused by FLOOD_WAIT_7)''
   \<and> type (classifyTelegramError
              (sendFailure ''@a'' ''A wait of 7 seconds is required (caused by FLOOD_WAIT_7)''))
       = FLOOD_WAIT
   \<and> map log_status
        (broadcast_logs (snd (processRecipient envFloodWait7 sampleJob ''@a'' sampleVars sampleWorld)))
       = [O_failed]
   \<and> map_sum message (\<lambda>v'. (n_sent v', n_failed v', n_skipped v', failureCount (antiSpam v')))
        (fst (processRecipient envFloodWait7 sampleJob ''@a'' sampleVars sampleWorld))
       = Inr (0, 1, 0, 1)
   \<and> floodWaitMs (trace (snd (processRecipient envFloodWait7 sampleJob ''@a'' sampleVars sampleWorld)))
       = 7000"
proof -
  let ?m7 = "''A wait of 7 seconds is required (caused by FLOOD_WAIT_7)''"
  have a1: "sendError envPeerInvalid (n_processed sampleVars) = Some ''PEER_ID_INVALID''"
    by (simp add: envPeerInvalid_def sampleEnv_def)
  have a2: "isPermanent (classifyTelegramError (sendFailure ''@a'' ''PEER_ID_INVALID''))"
    by (simp add: classifyTelegramError_def errorText_def sendFailure_def newError_def)
  have a3: "logError envPeerInvalid (n_processed sampleVars) O_skipped = None"
    by (simp add: envPeerInvalid_def sampleEnv_def)
  have b1: "sendError envFloodWait7 (n_processed sampleVars) = Some ?m7"
    by (simp add: envFloodWait7_def sampleEnv_def)
  have b2: "type (classifyTelegramError (sendFailure ''@a'' ?m7)) = FLOOD_WAIT"
    by (simp add: classifyTelegramError_def errorText_def sendFailure_def newError_def)
  have b3: "\<not> isPermanent (classifyTelegramError (sendFailure ''@a'' ?m7))"
    by (simp add: classifyTelegramError_def errorText_def sendFailure_def newError_def)
  have b4: "logError envFloodWait7 (n_processed sampleVars) O_failed = None"
    by (simp add: envFloodWait7_def sampleEnv_def)
  have b5: "parsedWaitSeconds (errorText (sendFailure ''@a'' ?m7)) = 7"
    by (simp add: parsedWaitSeconds_def errorText_def sendFailure_def newError_def isDigit_def
                  parseInt_def)
  have s0: "n_sent sampleVars = 0" "n_failed sampleVars = 0" "n_skipped sampleVars = 0"
    "failureCount (antiSpam sampleVars) = 0" "broadcast_logs sampleWorld = []"
    "trace sampleWorld = []"
    by (simp_all add: sampleVars_def sampleWorld_def newAntiSpamService_def)
  note t1 = permanent_skipped_transient_failed
              [where env = envPeerInvalid and v = sampleVars and recipient = "''@a''"
                 and job = sampleJob and w = sampleWorld]
  note t2 = permanent_skipped_transient_failed
              [where env = envFloodWait7 and v = sampleVars and recipient = "''@a''"
                 and job = sampleJob and w = sampleWorld]
  from t1 a1 a2 a3 obtain v1 w1 entry1 where
    p1: "processRecipient envPeerInvalid sampleJob ''@a'' sampleVars sampleWorld = (Inr v1, w1)"
        "n_skipped v1 = n_skipped sampleVars + 1" "n_failed v1 = n_failed sampleVars"
        "n_sent v1 = n_sent sampleVars" "antiSpam v1 = antiSpam sampleVars"
        "broadcast_logs w1 = broadcast_logs sampleWorld @ [entry1]" "log_status entry1 = O_skipped"
    by fastforce
  from t2 b1 b3 b4 obtain v2 w2 entry2 where
    p2: "processRecipient envFloodWait7 sampleJob ''@a'' sampleVars sampleWorld = (Inr v2, w2)"
        "n_failed v2 = n_failed sampleVars + 1" "n_skipped v2 = n_skipped sampleVars"
        "n_sent v2 = n_sent sampleVars" "antiSpam v2 = recordFailure (antiSpam sampleVars)"
        "broadcast_logs w2 = broadcast_logs sampleWorld @ [entry2]" "log_status entry2 = O_failed"
        "type (classifyTelegramError (sendFailure ''@a'' ?m7)) = FLOOD_WAIT \<longrightarrow>
           floodWaitMs (trace w2)
             = floodWaitMs (trace sampleWorld) + parsedWaitSeconds (errorText (sendFailure ''@a'' ?m7)) * 1000"
    by fastforce
  show ?thesis
    using a1 a2 b1 b2 p1 p2 b5 s0 by (simp add: recordFailure_def)
qed

subsection \<open>The session\<close>

lemmas handler_defs =
  handleBroadcastJob_def deliver_def onFatalError_def terminalDecision_def disconnect_def
  updateCampaignStatus_def campaignNotFound_def runFailureRate_def failureThreshold_def run_defs

text \<open>
  C4, on the code: the send to the only recipient fails and the insert of the failed
  outcome throws. The error leaves the loop, the outer \<^verbatim>\<open>catch\<close> runs, and the
  handler returns by throwing while the client is still connected: the client was
  connected once and never disconnected.
\<close>

theorem loop_error_leaves_session_connected:
  "fst (handleBroadcastJob envFailedLogFails sampleJob sampleWorld)
     = Inl (newError ''Failed to log broadcast outcome'')
   \<and> connected (snd (handleBroadcastJob envFailedLogFails sampleJob sampleWorld))
   \<and> filter (\<lambda>ev. ev = Connect \<or> ev = Disconnect)
        (trace (snd (handleBroadcastJob envFailedLogFails sampleJob sampleWorld)))
       = [Connect]"
  by (simp add: handler_defs envFailedLogFails_def sampleEnv_def sampleJob_def sampleWorld_def)

lemma emit_frame:
  "campaigns (emit evs w) = campaigns w"
  "broadcast_logs (emit evs w) = broadcast_logs w"
  "connected (emit evs w) = connected w"
  "trace (emit evs w) = trace w @ evs"
  by (simp_all add: emit_def)

lemma disconnect_frame:
  "campaigns (disconnect w) = campaigns w"
  "broadcast_logs (disconnect w) = broadcast_logs w"
  "\<not> connected (disconnect w)"
  "trace (disconnect w) = trace w @ [Disconnect]"
  by (simp_all add: disconnect_def emit_def)

text \<open>
  In general: a run whose loop completes returns disconnected, whether it returns or
  throws; a run whose loop is left by an error returns connected.
\<close>

lemma session_closed_when_loop_completes:
  assumes "initialize env job w = (Inr v0, w1)"
    and "sendAll env job (data_recipients job) v0 w1 = (Inr v, w2)"
  shows "\<not> connected (snd (handleBroadcastJob env job w))"
proof -
  have "campaigns w2 (data_campaignId job) \<noteq> None"
    using sendAll_frame [OF assms(2)] initialize_ok [OF assms(1)] by simp
  then obtain row2 where row2: "campaigns w2 (data_campaignId job) = Some row2"
    by blast
  note upd = updateCampaignStatus_present [of "campaigns w2" "data_campaignId job", OF row2]
  have row: "campaigns (disconnect w2) (data_campaignId job) \<noteq> None"
    using row2 by (simp add: disconnect_frame)
  have del: "deliver env job w = terminalDecision env job v (disconnect w2)"
    using assms by (simp add: deliver_def)
  obtain res w3 where td: "terminalDecision env job v (disconnect w2) = (res, w3)"
    by (cases "terminalDecision env job v (disconnect w2)")
  have c3: "\<not> connected w3"
    using td
    by (auto simp: terminalDecision_def Let_def upd updateProgress_frame emit_frame
                   disconnect_frame split: if_splits)
  have r3: "campaigns w3 (data_campaignId job) \<noteq> None"
    using terminalDecision_row [OF td row] .
  then obtain row3 where row3: "campaigns w3 (data_campaignId job) = Some row3" by blast
  show ?thesis
    using c3
    by (cases res)
       (simp_all add: handleBroadcastJob_def del td onFatalError_def Let_def
                      updateCampaignStatus_present [of "campaigns w3" "data_campaignId job", OF row3]
                      updateProgress_frame)
qed

lemma session_open_when_loop_aborts:
  assumes "initialize env job w = (Inr v0, w1)"
    and "sendAll env job (data_recipients job) v0 w1 = (Inl e, w2)"
  shows "handleBroadcastJob env job w = onFatalError job e w2
         \<and> connected (snd (handleBroadcastJob env job w))"
proof -
  have c2: "connected w2" "campaigns w2 (data_campaignId job) \<noteq> None"
    using sendAll_frame [OF assms(2)] initialize_ok [OF assms(1)] by simp_all
  then obtain row2 where row2: "campaigns w2 (data_campaignId job) = Some row2" by blast
  have "handleBroadcastJob env job w = onFatalError job e w2"
    using assms by (simp add: handleBroadcastJob_def deliver_def)
  then show ?thesis
    using c2(1)
    by (simp add: onFatalError_def Let_def
                  updateCampaignStatus_present [of "campaigns w2" "data_campaignId job", OF row2]
                  updateProgress_frame)
qed

subsection \<open>Counters and snapshots\<close>

text \<open>
  C7, on the code: the message to the only recipient is sent and the insert of its sent
  outcome throws; the \<^verbatim>\<open>catch\<close> block of the loop then counts the same recipient
  as failed. The snapshot of the iteration has \<open>processed = 1\<close>, \<open>sent = 1\<close> and
  \<open>failed = 1\<close>.
\<close>

theorem sent_log_error_counts_recipient_twice:
  "map (\<lambda>p. (status p, processed p, sent p, failed p, skipped p))
     (snapshots (trace (snd (handleBroadcastJob envSentLogFails sampleJob sampleWorld))))
   = [(P_initializing, 0, 0, 0, 0), (P_sending, 0, 0, 0, 0), (P_sending, 1, 1, 1, 0),
      (P_completed, 1, 1, 1, 0)]"
  by (simp add: handler_defs binary64_half envSentLogFails_def sampleEnv_def sampleJob_def
                sampleWorld_def)

text \<open>Every completed iteration adds exactly one to \<open>processed\<close>.\<close>

lemma processRecipient_processed:
  assumes "processRecipient env job r v w = (Inr v', w')"
  shows "n_processed v' = n_processed v + 1"
proof (cases "caughtError env r (n_processed v)")
  case None
  from processRecipient_clean [OF None, where job = job and w = w] assms
  show ?thesis by auto
next
  case (Some c)
  show ?thesis
  proof (cases "isPermanent (classifyTelegramError c)")
    case True
    from processRecipient_permanent [OF Some True, where job = job and w = w] assms
    show ?thesis by auto
  next
    case False
    from processRecipient_transient [OF Some False, where job = job and w = w] assms
    show ?thesis by auto
  qed
qed

lemma processRecipient_counts:
  assumes "processRecipient env job r v w = (Inr v', w')"
    and "countsAgree v"
    and "sendError env (n_processed v) = None \<longrightarrow> logError env (n_processed v) O_sent = None"
  shows "countsAgree v'"
proof (cases "caughtError env r (n_processed v)")
  case None
  from processRecipient_clean [OF None, where job = job and w = w] assms
  show ?thesis by (auto simp: countsAgree_def)
next
  case (Some c)
  then have s: "sendError env (n_processed v) \<noteq> None"
    using assms(3) by (auto simp: caughtError_def split: option.splits)
  show ?thesis
  proof (cases "isPermanent (classifyTelegramError c)")
    case True
    from processRecipient_permanent [OF Some True, where job = job and w = w] assms(1,2) s
    show ?thesis by (auto simp: countsAgree_def)
  next
    case False
    from processRecipient_transient [OF Some False, where job = job and w = w] assms(1,2) s
    show ?thesis by (auto simp: countsAgree_def)
  qed
qed

lemma onSendError_snapshots:
  assumes "onSendError env job i r c v w = (res, w')"
  shows "snapshots (trace w') = snapshots (trace w)"
  using assms
  by (auto simp: onSendError_def logBroadcastOutcome_def emit_def Let_def snapshots_append
           split: if_splits option.splits)

lemma processRecipient_snapshots:
  assumes "processRecipient env job r v w = (res, w')"
  shows "(\<exists>e. res = Inl e \<and> snapshots (trace w') = snapshots (trace w))
       \<or> (\<exists>v'. res = Inr v' \<and> n_processed v' = n_processed v + 1
             \<and> snapshots (trace w') = snapshots (trace w) @
                 [\<lparr>status = P_sending,
                   progress = progressPercent (n_processed v') (length (data_recipients job)),
                   processed = n_processed v', total = length (data_recipients job),
                   sent = n_sent v', failed = n_failed v', skipped = n_skipped v',
                   error = None\<rparr>])"
proof -
  let ?w0 = "emit [PacingDelay (calculateDelay (mathRandom env (n_processed v)) False (antiSpam v)),
                   SendAttempt r] w"
  have w0: "snapshots (trace ?w0) = snapshots (trace w)"
    by (simp add: emit_frame snapshots_append)
  show ?thesis
  proof (cases res)
    case (Inl e)
    with assms w0 show ?thesis
      by (auto simp: processRecipient_def Let_def logBroadcastOutcome_def
               split: option.splits sum.splits prod.splits dest!: onSendError_snapshots)
  next
    case (Inr v')
    have p: "n_processed v' = n_processed v + 1"
      using processRecipient_processed assms Inr by blast
    from assms Inr w0 have
      "snapshots (trace w') = snapshots (trace w) @
                 [\<lparr>status = P_sending,
                   progress = progressPercent (n_processed v') (length (data_recipients job)),
                   processed = n_processed v', total = length (data_recipients job),
                   sent = n_sent v', failed = n_failed v', skipped = n_skipped v',
                   error = None\<rparr>]"
      by (auto simp: processRecipient_def Let_def logBroadcastOutcome_def updateProgress_frame
                     snapshots_append emit_frame
               split: option.splits sum.splits prod.splits dest!: onSendError_snapshots)
    with Inr p show ?thesis by simp
  qed
qed

text \<open>The snapshots of the loop carry the values of \<open>processed\<close> in increasing order.\<close>

lemma sendAll_snapshots:
  "sendAll env job rs v w = (res, w') \<Longrightarrow>
     \<exists>ps. snapshots (trace w') = snapshots (trace w) @ ps
         \<and> sorted_wrt (<) (map processed ps)
         \<and> (\<forall>p \<in> set ps. n_processed v < processed p \<and> processed p \<le> n_processed v + length rs)"
proof (induction rs arbitrary: v w)
  case Nil
  then show ?case by simp
next
  case (Cons r rs)
  obtain res1 w1 where step: "processRecipient env job r v w = (res1, w1)"
    by (cases "processRecipient env job r v w")
  from processRecipient_snapshots [OF step]
  show ?case
  proof (elim disjE exE conjE)
    fix e assume "res1 = Inl e" "snapshots (trace w1) = snapshots (trace w)"
    with Cons.prems step show ?thesis by simp
  next
    fix v1
    assume a: "res1 = Inr v1" "n_processed v1 = n_processed v + 1"
      "snapshots (trace w1) = snapshots (trace w) @
                 [\<lparr>status = P_sending,
                   progress = progressPercent (n_processed v1) (length (data_recipients job)),
                   processed = n_processed v1, total = length (data_recipients job),
                   sent = n_sent v1, failed = n_failed v1, skipped = n_skipped v1,
                   error = None\<rparr>]"
    with Cons.prems step have rest: "sendAll env job rs v1 w1 = (res, w')" by simp
    from Cons.IH [OF rest] obtain ps where
      ps: "snapshots (trace w') = snapshots (trace w1) @ ps"
          "sorted_wrt (<) (map processed ps)"
          "\<forall>p \<in> set ps. n_processed v1 < processed p \<and> processed p \<le> n_processed v1 + length rs"
      by blast
    let ?p1 = "\<lparr>status = P_sending,
                   progress = progressPercent (n_processed v1) (length (data_recipients job)),
                   processed = n_processed v1, total = length (data_recipients job),
                   sent = n_sent v1, failed = n_failed v1, skipped = n_skipped v1,
                   error = None\<rparr>"
    have "snapshots (trace w') = snapshots (trace w) @ (?p1 # ps)"
      using ps(1) a(3) by simp
    moreover have "sorted_wrt (<) (map processed (?p1 # ps))"
      using ps(2,3) by auto
    moreover have "\<forall>p \<in> set (?p1 # ps).
        n_processed v < processed p \<and> processed p \<le> n_processed v + length (r # rs)"
      using ps(3) a(2) by auto
    ultimately show ?thesis by blast
  qed
qed


lemma constant_sorted: "\<forall>x \<in> set xs. x = (c::nat) \<Longrightarrow> sorted xs"
  by (induction xs) auto

lemma initialize_snapshots:
  assumes "initialize env job w = (res, w1)"
  shows "\<exists>ps. snapshots (trace w1) = snapshots (trace w) @ ps \<and> (\<forall>p \<in> set ps. processed p = 0)"
  using assms startCampaign_cases [of "campaigns w" "data_campaignId job"]
  by (auto simp: initialize_def Let_def updateProgress_frame emit_frame snapshots_append
           split: option.splits)

lemma terminalDecision_snapshots:
  assumes "terminalDecision env job v w = (res, w')"
  shows "\<exists>ps. snapshots (trace w') = snapshots (trace w) @ ps
             \<and> (\<forall>p \<in> set ps. processed p = length (data_recipients job))"
  using assms
  by (auto simp: terminalDecision_def Let_def updateProgress_frame emit_frame snapshots_append
           split: if_splits sum.splits prod.splits)

lemma onFatalError_snapshots:
  assumes "onFatalError job e w = (res, w')"
  shows "\<exists>ps. snapshots (trace w') = snapshots (trace w) @ ps
             \<and> (\<forall>p \<in> set ps. processed p = length (data_recipients job))"
  using assms
  by (auto simp: onFatalError_def Let_def updateProgress_frame snapshots_append
           split: sum.splits prod.splits)

lemma deliver_snapshots:
  assumes "deliver env job w = (res, w')"
  shows "\<exists>ps. snapshots (trace w') = snapshots (trace w) @ ps
             \<and> sorted (map processed ps)
             \<and> (\<forall>p \<in> set ps. processed p \<le> length (data_recipients job))"
proof -
  obtain r0 wa where init: "initialize env job w = (r0, wa)" by (cases "initialize env job w")
  from initialize_snapshots [OF init] obtain ps0 where
    ps0: "snapshots (trace wa) = snapshots (trace w) @ ps0" "\<forall>p \<in> set ps0. processed p = 0"
    by blast
  have s0: "sorted (map processed ps0)" using ps0(2) by (intro constant_sorted [of _ 0]) auto
  show ?thesis
  proof (cases r0)
    case (Inl e)
    with assms init have "w' = wa" by (simp add: deliver_def)
    with ps0 s0 show ?thesis by auto
  next
    case (Inr v0)
    have z: "n_processed v0 = 0" using initialize_ok init Inr by blast
    obtain r1 wb where loop: "sendAll env job (data_recipients job) v0 wa = (r1, wb)"
      by (cases "sendAll env job (data_recipients job) v0 wa")
    from sendAll_snapshots [OF loop] z obtain ps1 where
      ps1: "snapshots (trace wb) = snapshots (trace wa) @ ps1"
           "sorted_wrt (<) (map processed ps1)"
           "\<forall>p \<in> set ps1. processed p \<le> length (data_recipients job)"
      by auto
    have s1: "sorted (map processed ps1)"
      using ps1(2) by (rule sorted_wrt_mono_rel [rotated]) simp
    have s01: "sorted (map processed (ps0 @ ps1))"
      using s0 s1 ps0(2) by (auto simp: sorted_append)
    show ?thesis
    proof (cases r1)
      case (Inl e)
      with assms init \<open>r0 = Inr v0\<close> loop have "w' = wb" by (simp add: deliver_def)
      with ps0 ps1 s01 show ?thesis by auto
    next
      case (Inr v)
      with assms init \<open>r0 = Inr v0\<close> loop
      have td: "terminalDecision env job v (disconnect wb) = (res, w')" by (simp add: deliver_def)
      from terminalDecision_snapshots [OF td] obtain ps2 where
        ps2: "snapshots (trace w') = snapshots (trace (disconnect wb)) @ ps2"
             "\<forall>p \<in> set ps2. processed p = length (data_recipients job)"
        by blast
      have s2: "sorted (map processed ps2)"
        using ps2(2) by (intro constant_sorted [of _ "length (data_recipients job)"]) auto
      have "snapshots (trace w') = snapshots (trace w) @ (ps0 @ ps1 @ ps2)"
        using ps0(1) ps1(1) ps2(1) by (simp add: disconnect_frame snapshots_append)
      moreover have "sorted (map processed (ps0 @ ps1 @ ps2))"
        using s0 s1 s2 ps0(2) ps1(3) ps2(2) by (auto simp: sorted_append)
      moreover have "\<forall>p \<in> set (ps0 @ ps1 @ ps2). processed p \<le> length (data_recipients job)"
        using ps0(2) ps1(3) ps2(2) by auto
      ultimately show ?thesis by blast
    qed
  qed
qed

text \<open>
  Over a whole attempt the values of \<open>processed\<close> handed to the progress reporter never
  decrease.
\<close>

lemma handler_processed_nondecreasing:
  assumes "snapshots (trace w) = []"
  shows "sorted (map processed (snapshots (trace (snd (handleBroadcastJob env job w)))))"
proof -
  obtain r wa where d: "deliver env job w = (r, wa)" by (cases "deliver env job w")
  from deliver_snapshots [OF d] assms obtain ps where
    ps: "snapshots (trace wa) = ps" "sorted (map processed ps)"
        "\<forall>p \<in> set ps. processed p \<le> length (data_recipients job)"
    by auto
  show ?thesis
  proof (cases r)
    case (Inr result)
    with d ps show ?thesis by (simp add: handleBroadcastJob_def)
  next
    case (Inl e)
    obtain r2 wb where f: "onFatalError job e wa = (r2, wb)" by (cases "onFatalError job e wa")
    from onFatalError_snapshots [OF f] obtain ps2 where
      ps2: "snapshots (trace wb) = snapshots (trace wa) @ ps2"
           "\<forall>p \<in> set ps2. processed p = length (data_recipients job)"
      by blast
    have "sorted (map processed ps2)"
      using ps2(2) by (intro constant_sorted [of _ "length (data_recipients job)"]) auto
    with ps ps2 have "sorted (map processed (snapshots (trace wb)))"
      by (auto simp: sorted_append)
    with d Inl f show ?thesis by (simp add: handleBroadcastJob_def)
  qed
qed

text \<open>
  When no insert of a sent outcome throws, every snapshot of the loop satisfies
  \<open>processed = sent + failed + skipped\<close>.
\<close>

lemma sendAll_counts:
  "sendAll env job rs v w = (res, w') \<Longrightarrow> countsAgree v \<Longrightarrow>
   (\<forall>i. sendError env i = None \<longrightarrow> logError env i O_sent = None) \<Longrightarrow>
     \<exists>ps. snapshots (trace w') = snapshots (trace w) @ ps
         \<and> (\<forall>p \<in> set ps. processed p = sent p + failed p + skipped p)"
proof (induction rs arbitrary: v w)
  case Nil
  then show ?case by simp
next
  case (Cons r rs)
  obtain res1 w1 where step: "processRecipient env job r v w = (res1, w1)"
    by (cases "processRecipient env job r v w")
  from processRecipient_snapshots [OF step]
  show ?case
  proof (elim disjE exE conjE)
    fix e assume "res1 = Inl e" "snapshots (trace w1) = snapshots (trace w)"
    with Cons.prems step show ?thesis by simp
  next
    fix v1
    assume a: "res1 = Inr v1" "n_processed v1 = n_processed v + 1"
      "snapshots (trace w1) = snapshots (trace w) @
                 [\<lparr>status = P_sending,
                   progress = progressPercent (n_processed v1) (length (data_recipients job)),
                   processed = n_processed v1, total = length (data_recipients job),
                   sent = n_sent v1, failed = n_failed v1, skipped = n_skipped v1,
                   error = None\<rparr>]"
    have c1: "countsAgree v1"
      using processRecipient_counts [of env job r v w v1 w1] step a(1) Cons.prems(2,3) by simp
    from Cons.prems step a(1) have rest: "sendAll env job rs v1 w1 = (res, w')" by simp
    from Cons.IH [OF rest c1 Cons.prems(3)] obtain ps where
      ps: "snapshots (trace w') = snapshots (trace w1) @ ps"
          "\<forall>p \<in> set ps. processed p = sent p + failed p + skipped p"
      by blast
    show ?thesis
      using ps a(3) c1 by (auto simp: countsAgree_def)
  qed
qed


end
